theory Spec2Isabelle
  imports Complex_Main "HOL-Library.Sublist" "HOL-Library.Multiset"
begin

section \<open>Strings\<close>

text \<open>
  A JavaScript string is modelled as a \<^typ>\<open>string\<close> whose characters are the code units
  below 256 (the Latin-1 range, which covers Portuguese and English text). On this range
  the built-in string functions used by the library are the following.
\<close>

definition is_space :: "char \<Rightarrow> bool" where
  \<comment> \<open>the class \<open>\s\<close> of a regular expression: tab, line feed, vertical tab, form feed,
      carriage return, space and the no-break space U+00A0\<close>
  "is_space c = (of_char c \<in> {9, 10, 11, 12, 13, 32, 160 :: nat})"

definition is_digit :: "char \<Rightarrow> bool" where
  "is_digit c = (48 \<le> (of_char c :: nat) \<and> (of_char c :: nat) \<le> 57)"

definition is_word :: "char \<Rightarrow> bool" where
  \<comment> \<open>the class \<open>\w\<close>: \<open>[A-Za-z0-9_]\<close>\<close>
  "is_word c = (let n = (of_char c :: nat) in
     (65 \<le> n \<and> n \<le> 90) \<or> (97 \<le> n \<and> n \<le> 122) \<or> (48 \<le> n \<and> n \<le> 57) \<or> n = 95)"

definition lower_char :: "char \<Rightarrow> char" where
  \<comment> \<open>\<open>toLowerCase\<close> on one code unit: \<open>A-Z\<close>, and the Latin-1 capitals U+00C0 to U+00DE
      without the multiplication sign U+00D7\<close>
  "lower_char c = (let n = (of_char c :: nat) in
     if (65 \<le> n \<and> n \<le> 90) \<or> (192 \<le> n \<and> n \<le> 222 \<and> n \<noteq> 215) then char_of (n + 32) else c)"

definition toLowerCase :: "string \<Rightarrow> string" where
  "toLowerCase s = map lower_char s"

definition base_char :: "char \<Rightarrow> char" where
  \<comment> \<open>\<open>normalize("NFD")\<close> splits a precomposed Latin-1 letter into its base letter and a
      combining mark of U+0300 to U+036F; the replacement that follows deletes the mark.
      Together they send the letter to its base letter and leave every other code unit.\<close>
  "base_char c = (let n = (of_char c :: nat) in
     if 192 \<le> n \<and> n \<le> 197 then CHR ''A'' else if n = 199 then CHR ''C''
     else if 200 \<le> n \<and> n \<le> 203 then CHR ''E'' else if 204 \<le> n \<and> n \<le> 207 then CHR ''I''
     else if n = 209 then CHR ''N'' else if 210 \<le> n \<and> n \<le> 214 then CHR ''O''
     else if 217 \<le> n \<and> n \<le> 220 then CHR ''U'' else if n = 221 then CHR ''Y''
     else if 224 \<le> n \<and> n \<le> 229 then CHR ''a'' else if n = 231 then CHR ''c''
     else if 232 \<le> n \<and> n \<le> 235 then CHR ''e'' else if 236 \<le> n \<and> n \<le> 239 then CHR ''i''
     else if n = 241 then CHR ''n'' else if 242 \<le> n \<and> n \<le> 246 then CHR ''o''
     else if 249 \<le> n \<and> n \<le> 252 then CHR ''u'' else if n = 253 \<or> n = 255 then CHR ''y''
     else c)"

definition strip_diacritics :: "string \<Rightarrow> string" where
  "strip_diacritics s = map base_char s"

definition blank_non_word :: "string \<Rightarrow> string" where
  \<comment> \<open>\<open>replace(/[^\w\s]/g, " ")\<close>\<close>
  "blank_non_word s = map (\<lambda>c. if is_word c \<or> is_space c then c else CHR '' '') s"

function collapse_spaces :: "string \<Rightarrow> string" where
  \<comment> \<open>\<open>replace(/\s+/g, " ")\<close>: every maximal run of white space becomes one space\<close>
  "collapse_spaces [] = []"
| "collapse_spaces (c # cs) =
     (if is_space c then CHR '' '' # collapse_spaces (dropWhile is_space cs)
      else c # collapse_spaces cs)"
  by pat_completeness auto
termination
  by (relation "measure length") (auto simp: less_Suc_eq_le length_dropWhile_le)

definition trim :: "string \<Rightarrow> string" where
  "trim s = rev (dropWhile is_space (rev (dropWhile is_space s)))"

fun split_on :: "char \<Rightarrow> string \<Rightarrow> string list" where
  \<comment> \<open>\<open>s.split(sep)\<close> for a separator of one character; the empty string gives one empty
      piece\<close>
  "split_on sep [] = [[]]"
| "split_on sep (c # cs) =
     (if c = sep then [] # split_on sep cs
      else (case split_on sep cs of [] \<Rightarrow> [[c]] | w # ws \<Rightarrow> (c # w) # ws))"

fun starts_with :: "string \<Rightarrow> string \<Rightarrow> bool" where
  "starts_with s [] = True"
| "starts_with [] (c # t) = False"
| "starts_with (d # s) (c # t) = (d = c \<and> starts_with s t)"

fun str_includes :: "string \<Rightarrow> string \<Rightarrow> bool" where
  \<comment> \<open>\<open>s.includes(t)\<close>\<close>
  "str_includes [] t = (t = [])"
| "str_includes (c # s) t = (starts_with (c # s) t \<or> str_includes s t)"

section \<open>Strict matching\<close>

definition normalize_str :: "string \<Rightarrow> string" where
  "normalize_str s = trim (collapse_spaces (blank_non_word (strip_diacritics (toLowerCase s))))"

definition STOP_WORDS :: "string list" where
  "STOP_WORDS = [''de'', ''da'', ''do'', ''das'', ''dos'', ''e'', ''ou'', ''em'', ''com'',
     ''para'', ''por'', ''um'', ''uma'', ''o'', ''a'', ''os'', ''as'', ''no'', ''na'', ''nos'',
     ''nas'', ''the'', ''and'', ''or'', ''for'', ''in'', ''of'', ''to'', ''with'']"

definition getQueryTokens :: "string \<Rightarrow> string list" where
  "getQueryTokens query =
     filter (\<lambda>t. 1 < length t \<and> t \<notin> set STOP_WORDS) (split_on CHR '' '' (normalize_str query))"

definition corpus :: "string \<Rightarrow> string option \<Rightarrow> string option list \<Rightarrow> string" where
  \<comment> \<open>the text \<open>matchesTokens\<close> searches: the normalised title, then the normalised
      description when there is one, then every property value, each after a space\<close>
  "corpus ttl descr vals =
     normalize_str ttl
     @ (case descr of None \<Rightarrow> [] | Some d \<Rightarrow> if d = [] then [] else CHR '' '' # normalize_str d)
     @ concat (map (\<lambda>v. CHR '' '' # normalize_str (case v of None \<Rightarrow> [] | Some s \<Rightarrow> s)) vals)"

section \<open>Listings\<close>

text \<open>
  A raw advertisement of the embedded payload and the item the library makes of it. The
  records keep the fields that the pipeline reads or writes (identity, title, prices, link,
  properties and the three fields that enrichment fills); the display-only fields of an
  item (location, dates, images, seller flags) are left out.
\<close>

record raw_property =
  p_name :: "string option"
  p_label :: "string option"
  p_value :: "string option"

record property =
  prop_name :: "string option"
  prop_value :: "string option"

record raw_ad =
  ad_subject :: "string option"
  ad_title :: "string option"
  ad_priceValue :: "string option"
  ad_price :: "string option"
  ad_oldPrice :: "string option"
  ad_listId :: "nat option"
  ad_url :: "string option"
  ad_friendlyUrl :: "string option"
  ad_properties :: "raw_property list option"

record item =
  item_id :: "nat option"
  title :: string
  price :: "rat option"
  oldPrice :: "rat option"
  discountPercent :: "int option"
  permalink :: string
  properties :: "property list option"
  description :: "string option"
  attributes :: "property list option"
  sellerName :: "string option"

definition truthy :: "string option \<Rightarrow> bool" where
  \<comment> \<open>a string field is truthy when it is present and not empty\<close>
  "truthy s = (s \<noteq> None \<and> s \<noteq> Some [])"

definition js_or :: "string option \<Rightarrow> string option \<Rightarrow> string option" where
  \<comment> \<open>\<open>a || b\<close>\<close>
  "js_or a b = (if truthy a then a else b)"

text \<open>
  A JavaScript number is a double, modelled by the rational it denotes. The result of
  parsing a decimal text and of every subtraction, division and multiplication is the
  exact result rounded to the nearest double, a tie going to the double whose significand
  is even. A double has a significand of 53 bits and a binary exponent of at least
  \<open>-1022\<close>; below that exponent the spacing of the doubles stays \<open>2 ^ (-1074)\<close>. A price
  past the largest double (one of more than 308 digits), for which JavaScript has
  \<open>Infinity\<close>, is outside the model.
\<close>

function bit_length :: "int \<Rightarrow> int" where
  \<comment> \<open>the number of binary digits of a positive integer\<close>
  "bit_length n = (if n \<le> 0 then 0 else 1 + bit_length (n div 2))"
  by pat_completeness auto
termination
  by (relation "measure nat") auto

declare bit_length.simps [simp del]

definition pow2 :: "int \<Rightarrow> rat" where
  "pow2 k = (if 0 \<le> k then 2 ^ nat k else 1 / 2 ^ nat (- k))"

definition binary_exponent :: "rat \<Rightarrow> int" where
  \<comment> \<open>for a positive \<open>x\<close>, the \<open>e\<close> with \<open>2 ^ e \<le> x < 2 ^ (e + 1)\<close>\<close>
  "binary_exponent x =
     (let (n, d) = quotient_of x;
          e = bit_length n - bit_length d
      in if pow2 e \<le> x then e else e - 1)"

definition round_half_even :: "rat \<Rightarrow> int" where
  \<comment> \<open>the nearest integer, a tie going to the even one\<close>
  "round_half_even q =
     (let f = \<lfloor>q\<rfloor>; r = q - of_int f
      in if r < 1 / 2 then f else if 1 / 2 < r then f + 1 else if even f then f else f + 1)"

definition to_double :: "rat \<Rightarrow> rat" where
  \<comment> \<open>the double nearest to \<open>x\<close>: \<open>u\<close> is the spacing of the doubles around \<open>x\<close>\<close>
  "to_double x =
     (if x = 0 then 0
      else let a = \<bar>x\<bar>;
               u = pow2 (max (binary_exponent a) (- 1022) - 52);
               m = of_int (round_half_even (a / u)) * u
           in if x < 0 then - m else m)"

definition digits_value :: "string \<Rightarrow> nat" where
  "digits_value ds = foldl (\<lambda>n c. 10 * n + (of_char c - 48)) 0 ds"

definition parseFloat :: "string \<Rightarrow> rat option" where
  \<comment> \<open>\<open>parseFloat\<close> on a string of digits, points and commas (all that \<open>parsePrice\<close> hands
      it): the double nearest to the longest prefix \<open>digits [. digits]\<close>; \<open>None\<close> is \<open>NaN\<close>\<close>
  "parseFloat s =
     (let ip = takeWhile is_digit s;
          fp = (case dropWhile is_digit s of [] \<Rightarrow> []
                | c # r \<Rightarrow> if c = CHR ''.'' then takeWhile is_digit r else [])
      in if ip = [] \<and> fp = [] then None
         else Some (to_double
                      (of_nat (digits_value ip) + of_nat (digits_value fp) / 10 ^ length fp)))"

fun replace_first :: "char \<Rightarrow> char \<Rightarrow> string \<Rightarrow> string" where
  \<comment> \<open>\<open>s.replace(a, b)\<close> with a string pattern replaces the first occurrence only\<close>
  "replace_first a b [] = []"
| "replace_first a b (c # cs) = (if c = a then b # cs else c # replace_first a b cs)"

definition parsePrice :: "string option \<Rightarrow> rat option" where
  "parsePrice priceStr =
     (case priceStr of None \<Rightarrow> None
      | Some s \<Rightarrow>
          if s = [] then None
          else parseFloat (replace_first CHR '','' CHR ''.''
                 (filter (\<lambda>c. c \<noteq> CHR ''.'')
                   (filter (\<lambda>c. is_digit c \<or> c = CHR ''.'' \<or> c = CHR '','') s))))"

definition Math_round :: "rat \<Rightarrow> int" where
  \<comment> \<open>\<open>Math.round\<close> of a double: the nearest integer, a tie going up\<close>
  "Math_round x = \<lfloor>x + 1 / 2\<rfloor>"

definition truthy_num :: "rat option \<Rightarrow> bool" where
  \<comment> \<open>a number is truthy when it is present and not zero\<close>
  "truthy_num x = (x \<noteq> None \<and> x \<noteq> Some 0)"

definition parseProperties :: "raw_property list option \<Rightarrow> property list" where
  "parseProperties ps =
     (case ps of None \<Rightarrow> []
      | Some l \<Rightarrow>
          map (\<lambda>p. \<lparr>prop_name = js_or (p_label p) (p_name p), prop_value = p_value p\<rparr>)
            (filter (\<lambda>p. p_name p \<noteq> Some ''category'') l))"

definition parseAd :: "raw_ad option \<Rightarrow> item option" where
  "parseAd a =
     (case a of None \<Rightarrow> None
      | Some ad \<Rightarrow>
          let ttl = (case js_or (ad_subject ad) (ad_title ad) of None \<Rightarrow> [] | Some t \<Rightarrow> t) in
          if ttl = [] then None
          else
            let pr = parsePrice (js_or (ad_priceValue ad) (ad_price ad));
                old = parsePrice (ad_oldPrice ad);
                disc = (if truthy_num old \<and> truthy_num pr \<and> the old > the pr
                        then Some (Math_round
                                     (to_double (to_double (to_double (the old - the pr) / the old)
                                                 * 100)))
                        else None);
                props = parseProperties (ad_properties ad)
            in Some \<lparr>item_id = (case ad_listId ad of None \<Rightarrow> None
                                 | Some n \<Rightarrow> if n = 0 then None else Some n),
                      title = ttl, price = pr, oldPrice = old, discountPercent = disc,
                      permalink = (case js_or (ad_url ad) (ad_friendlyUrl ad) of
                                     None \<Rightarrow> [] | Some u \<Rightarrow> u),
                      properties = (if props = [] then None else Some props),
                      description = None, attributes = None, sellerName = None\<rparr>)"

definition parseAds :: "raw_ad option list \<Rightarrow> item list" where
  \<comment> \<open>\<open>ads.map((ad) => parseAd(ad)).filter(Boolean)\<close>\<close>
  "parseAds l = List.map_filter parseAd l"

definition matchesTokens :: "item \<Rightarrow> string list \<Rightarrow> bool" where
  "matchesTokens it tokens =
     (if tokens = [] then True
      else list_all (\<lambda>token.
             str_includes
               (corpus (title it) (description it)
                  (case properties it of None \<Rightarrow> [] | Some ps \<Rightarrow> map prop_value ps))
               token) tokens)"

definition matchesQuery :: "item \<Rightarrow> string \<Rightarrow> bool" where
  "matchesQuery it query = matchesTokens it (getQueryTokens query)"

section \<open>Result shaping\<close>

text \<open>
  The value of a comparator is a number or one of \<open>Infinity\<close>, \<open>-Infinity\<close> and \<open>NaN\<close>. The
  sort reads its sign only, and the difference of two doubles has the sign of their exact
  difference, so the difference is left exact.
\<close>

datatype jsnum = Num rat | PosInf | NegInf | NaN

fun js_minus :: "jsnum \<Rightarrow> jsnum \<Rightarrow> jsnum" where
  "js_minus (Num a) (Num b) = Num (a - b)"
| "js_minus (Num a) PosInf = NegInf"
| "js_minus (Num a) NegInf = PosInf"
| "js_minus PosInf (Num b) = PosInf"
| "js_minus PosInf NegInf = PosInf"
| "js_minus PosInf PosInf = NaN"
| "js_minus NegInf (Num b) = NegInf"
| "js_minus NegInf PosInf = NegInf"
| "js_minus NegInf NegInf = NaN"
| "js_minus NaN b = NaN"
| "js_minus a NaN = NaN"

fun is_positive :: "jsnum \<Rightarrow> bool" where
  "is_positive (Num r) = (0 < r)"
| "is_positive PosInf = True"
| "is_positive NegInf = False"
| "is_positive NaN = False"

definition price_or :: "jsnum \<Rightarrow> item \<Rightarrow> jsnum" where
  \<comment> \<open>\<open>item.price ?? d\<close>\<close>
  "price_or d it = (case price it of None \<Rightarrow> d | Some p \<Rightarrow> Num p)"

definition cmp_price_asc :: "item \<Rightarrow> item \<Rightarrow> jsnum" where
  "cmp_price_asc a b = js_minus (price_or PosInf a) (price_or PosInf b)"

definition cmp_price_desc :: "item \<Rightarrow> item \<Rightarrow> jsnum" where
  "cmp_price_desc a b = js_minus (price_or (Num 0) b) (price_or (Num 0) a)"

text \<open>
  \<open>Array.prototype.sort\<close> with a comparator is a stable sort: \<open>a\<close> is put after \<open>b\<close> only
  when the comparator's value on \<open>(a, b)\<close> is positive, and a value of \<open>NaN\<close> counts as
  zero. Insertion from the right computes that ordering.
\<close>

fun insert_sorted :: "('a \<Rightarrow> 'a \<Rightarrow> jsnum) \<Rightarrow> 'a \<Rightarrow> 'a list \<Rightarrow> 'a list" where
  "insert_sorted cmp x [] = [x]"
| "insert_sorted cmp x (y # ys) =
     (if is_positive (cmp x y) then y # insert_sorted cmp x ys else x # y # ys)"

definition js_sort :: "('a \<Rightarrow> 'a \<Rightarrow> jsnum) \<Rightarrow> 'a list \<Rightarrow> 'a list" where
  "js_sort cmp xs = foldr (insert_sorted cmp) xs []"

definition sortItems :: "string option \<Rightarrow> item list \<Rightarrow> item list" where
  "sortItems srt l =
     (if srt = Some ''price_asc'' then js_sort cmp_price_asc l
      else if srt = Some ''price_desc'' then js_sort cmp_price_desc l
      else l)"

definition slice_index :: "nat \<Rightarrow> int \<Rightarrow> nat" where
  \<comment> \<open>an index argument of \<open>slice\<close>: a negative one counts from the end, and both ends are
      clamped to the array\<close>
  "slice_index len k = (if k < 0 then nat (max (int len + k) 0) else min (nat k) len)"

definition js_slice :: "'a list \<Rightarrow> int \<Rightarrow> int \<Rightarrow> 'a list" where
  "js_slice xs s e =
     (let a = slice_index (length xs) s; b = slice_index (length xs) e
      in take (b - a) (drop a xs))"

definition sortAndCut :: "string option \<Rightarrow> int \<Rightarrow> item list \<Rightarrow> item list" where
  \<comment> \<open>the sort followed by \<open>slice(0, limit)\<close>, as both bodies of \<open>search\<close> end\<close>
  "sortAndCut srt lmt l = js_slice (sortItems srt l) 0 lmt"

section \<open>Deduplication and the round-robin merge\<close>

definition pushUnique :: "item \<Rightarrow> nat set \<times> item list \<Rightarrow> nat set \<times> item list" where
  \<comment> \<open>\<open>if (item.id && seenIds.has(item.id)) continue; if (item.id) seenIds.add(item.id);
      items.push(item)\<close>\<close>
  "pushUnique it st =
     (case item_id it of
        None \<Rightarrow> (fst st, snd st @ [it])
      | Some i \<Rightarrow>
          if i = 0 then (fst st, snd st @ [it])
          else if i \<in> fst st then st
          else (insert i (fst st), snd st @ [it]))"

definition addSeen :: "item \<Rightarrow> nat set \<Rightarrow> nat set" where
  \<comment> \<open>\<open>if (item.id) seenIds.add(item.id)\<close>\<close>
  "addSeen it seen =
     (case item_id it of None \<Rightarrow> seen | Some i \<Rightarrow> if i = 0 then seen else insert i seen)"

definition mergeRank :: "nat \<Rightarrow> item list list \<Rightarrow> nat set \<times> item list \<Rightarrow> nat set \<times> item list" where
  \<comment> \<open>the inner loop of the merge: rank \<open>i\<close> of every region that has one\<close>
  "mergeRank i stateResults st =
     fold (\<lambda>arr acc. if length arr \<le> i then acc else pushUnique (arr ! i) acc) stateResults st"

definition mergeRegions :: "item list list \<Rightarrow> item list" where
  "mergeRegions stateResults =
     (let maxLen = foldr (\<lambda>arr m. max (length arr) m) stateResults 0
      in snd (fold (\<lambda>i acc. mergeRank i stateResults acc) [0..<maxLen] ({}, [])))"

section \<open>The marketplace\<close>

text \<open>
  The network is a parameter: what a search page holds for each address, and what a
  detail page yields for each link. A search page either cannot be fetched, or is a
  document whose embedded payload may be missing or malformed (\<open>None\<close>). Every request the
  library makes is recorded in order.
\<close>

record pageProps =
  ads :: "raw_ad option list option"
  totalOfAds :: "nat option"
  pageSize :: "nat option"

datatype response = TransportFailure | Document "pageProps option"

record url =
  url_path :: string
  url_q :: string
  url_o :: "nat option"
  url_sp :: "string option"
  url_sf :: "string option"

record detail =
  d_description :: "string option"
  d_attributes :: "property list option"
  d_sellerName :: "string option"

record web =
  pages :: "url \<Rightarrow> response"
  details :: "string \<Rightarrow> detail option"

datatype request = PageRequest url | DetailRequest string

datatype error =
  UnknownCategory string | UnknownState string | ExtractionError | TransportError
  | InvalidOption string | NoQuery

definition extractNextData :: "pageProps option \<Rightarrow> pageProps option" where
  \<comment> \<open>the payload of a fetched document, or \<open>None\<close>\<close>
  "extractNextData doc = doc"

definition buildUrl ::
  "string \<Rightarrow> string option \<Rightarrow> nat \<Rightarrow> string option \<Rightarrow> string option \<Rightarrow> url" where
  "buildUrl query srt page st cat =
     \<lparr>url_path =
        (if truthy cat \<and> truthy st then ''/'' @ the cat @ ''/estado-'' @ toLowerCase (the st)
         else if truthy cat then ''/'' @ the cat
         else if truthy st then ''/estado-'' @ toLowerCase (the st)
         else ''/brasil''),
      url_q = query,
      url_o = (if 1 < page then Some page else None),
      url_sp = (if srt = Some ''price_asc'' then Some ''1''
                else if srt = Some ''price_desc'' then Some ''2'' else None),
      url_sf = (if srt \<noteq> Some ''price_asc'' \<and> srt \<noteq> Some ''price_desc'' \<and> srt = Some ''date''
                then Some ''1'' else None)\<rparr>"

section \<open>Search\<close>

definition DEFAULT_LIMIT :: int where "DEFAULT_LIMIT = 20"
definition DEFAULT_TIMEOUT :: int where "DEFAULT_TIMEOUT = 15000"
definition DEFAULT_CONCURRENCY :: int where "DEFAULT_CONCURRENCY = 5"
definition MAX_PAGES :: nat where "MAX_PAGES = 20"

definition VALID_STATES :: "string list" where
  "VALID_STATES = [''ac'', ''al'', ''ap'', ''am'', ''ba'', ''ce'', ''df'', ''es'', ''go'', ''ma'',
     ''mt'', ''ms'', ''mg'', ''pa'', ''pb'', ''pr'', ''pe'', ''pi'', ''rj'', ''rn'', ''rs'', ''ro'',
     ''rr'', ''sc'', ''sp'', ''se'', ''to'']"

definition CATEGORIES :: "string list" where
  \<comment> \<open>the slugs (keys) of the category table\<close>
  "CATEGORIES = [
    ''imoveis'', ''imoveis/venda'', ''imoveis/aluguel'', ''imoveis/temporada'',
    ''imoveis/terrenos'', ''imoveis/comercio-e-industria'', ''imoveis/lancamentos'',
    ''autos-e-pecas'', ''autos-e-pecas/carros-vans-e-utilitarios'', ''autos-e-pecas/motos'',
    ''autos-e-pecas/onibus'', ''autos-e-pecas/caminhoes'',
    ''autos-e-pecas/barcos-e-aeronaves'', ''autos-e-pecas/pecas-e-acessorios'',
    ''autos-e-pecas/pecas-e-acessorios/carros-vans-e-utilitarios'',
    ''autos-e-pecas/pecas-e-acessorios/motos'', ''autos-e-pecas/pecas-e-acessorios/onibus'',
    ''autos-e-pecas/pecas-e-acessorios/caminhoes'',
    ''autos-e-pecas/pecas-e-acessorios/barcos-e-aeronaves'', ''para-a-sua-casa'',
    ''para-a-sua-casa/cama-mesa-e-banho'', ''para-a-sua-casa/decoracoes-para-casa'',
    ''para-a-sua-casa/casa-inteligente'', ''para-a-sua-casa/utensilios-para-cozinha'',
    ''para-a-sua-casa/utensilios-para-banheiro-e-limpeza'', ''para-a-sua-casa/iluminacao'',
    ''para-a-sua-casa/seguranca-residencial'', ''para-a-sua-casa/jardinagem-e-plantas'',
    ''para-a-sua-casa/area-externa'', ''moveis'', ''moveis/camas-e-colchoes'',
    ''moveis/sofas-e-poltronas'', ''moveis/cadeiras-de-escritorio-e-gamer'',
    ''moveis/bancos-e-cadeiras'', ''moveis/mesas'', ''moveis/escrivaninhas-e-penteadeiras'',
    ''moveis/racks-e-paineis'', ''moveis/armarios-e-guarda-roupas'',
    ''moveis/moveis-para-organizacao'', ''eletro'', ''eletro/ar-condicionados'',
    ''eletro/ventiladores-e-climatizadores'', ''eletro/geladeiras-e-freezers'',
    ''eletro/fogoes-e-fornos'', ''eletro/maquinas-de-lavar-e-secadoras'',
    ''eletro/eletroportateis-para-cozinha-e-limpeza'',
    ''eletro/eletroportateis-para-cuidados-pessoais'', ''materiais-de-construcao'',
    ''materiais-de-construcao/fundacao-e-estrutura'', ''materiais-de-construcao/alvenaria'',
    ''materiais-de-construcao/pisos-e-revestimentos'',
    ''materiais-de-construcao/portas-e-janelas'', ''materiais-de-construcao/cubas-e-pias'',
    ''materiais-de-construcao/torneiras-duchas-e-vasos'',
    ''materiais-de-construcao/instalacoes-eletricas-e-hidraulicas'',
    ''materiais-de-construcao/ferramentas-de-construcao'',
    ''materiais-de-construcao/ferramentas-de-pintura'', ''eletronicos-e-celulares'',
    ''celulares'', ''eletronicos-e-celulares/acessorios-de-celular'',
    ''eletronicos-e-celulares/pecas-de-celular'', ''eletronicos-e-celulares/smartwatches'',
    ''eletronicos-e-celulares/acessorios-para-smartwatch'',
    ''eletronicos-e-celulares/telefonia-fixa-e-sem-fio'', ''informatica'',
    ''informatica/computadores-e-desktops'', ''informatica/notebooks'',
    ''informatica/monitores'', ''informatica/perifericos-e-acessorios-de-computador'',
    ''informatica/pecas-de-hardware'', ''informatica/armazenamento'',
    ''informatica/memoria-ram'', ''informatica/processadores'',
    ''informatica/placas-de-video'', ''informatica/conectividade-e-dispositivos-de-rede'',
    ''informatica/tablets-e-readers'', ''games'', ''games/consoles-de-video-game'',
    ''games/jogos-de-video-game'', ''games/acessorios-de-video-game'', ''tvs-e-video'',
    ''tvs-e-video/tvs'', ''tvs-e-video/acessorios-para-tv'',
    ''tvs-e-video/projetores-e-telas-de-projecao'', ''tvs-e-video/dvd-blu-ray-video-cassete'',
    ''tvs-e-video/dispositivos-de-streaming'', ''audio'', ''audio/fones-de-ouvido'',
    ''audio/aparelhos-de-som'', ''audio/microfones-e-gravadores'',
    ''audio/equipamentos-e-acessorios-de-som'', ''cameras-e-drones'', ''cameras-e-filmadoras'',
    ''acessorios-para-cameras-e-filmadoras'', ''drones'', ''moda-e-beleza'',
    ''beleza-e-saude'', ''roupas'', ''bolsas-malas-e-mochilas'',
    ''bijouteria-relogios-e-acessorios'', ''calcados'', ''comercio-e-escritorio'',
    ''comercio-e-escritorio/equipamentos'', ''comercio-e-escritorio/gastronomia'',
    ''comercio-e-escritorio/equipamento-medico'', ''comercio-e-escritorio/uniformes-epis'',
    ''comercio-e-escritorio/trailers-e-carrinhos-comerciais'', ''escritorio'',
    ''escritorio/itens-para-escritorio'', ''escritorio/cadeiras-de-escritorio'',
    ''escritorio/moveis-de-escritorio'', ''escritorio/papelaria'', ''musica-e-hobbies'',
    ''instrumentos-musicais'', ''cds-dvds'', ''livros-e-revistas'', ''antiguidades'',
    ''hobbies-e-colecoes'', ''esportes-e-lazer'', ''ciclismo'',
    ''esportes-e-lazer/academia-e-exercicios'', ''esportes-e-lazer/acampamento'',
    ''esportes-e-lazer/esportes-sobre-rodas'', ''esportes-e-lazer/quadra-e-ao-ar-livre'',
    ''esportes-e-lazer/esportes-aquaticos'', ''esportes-e-lazer/roupas-esportivas'',
    ''esportes-e-lazer/calcados-esportivos'', ''esportes-e-lazer/acessorios-de-ciclismo'',
    ''artigos-infantis'', ''artigos-infantis/roupas-infantis'',
    ''artigos-infantis/calcados-infantis'', ''artigos-infantis/roupas-para-bebes'',
    ''artigos-infantis/calcados-para-bebes'', ''artigos-infantis/brinquedos'',
    ''artigos-infantis/maternidade-e-bebes'', ''artigos-infantis/moveis-infantis'',
    ''animais-de-estimacao'', ''animais-de-estimacao/cachorros'',
    ''animais-de-estimacao/gatos'', ''animais-de-estimacao/acessorios'',
    ''animais-de-estimacao/roedores'', ''animais-de-estimacao/outros-animais'',
    ''agro-e-industria'', ''agro-e-industria/tratores-e-maquinas-agricolas'',
    ''agro-e-industria/maquinas-pesadas-para-construcao'',
    ''agro-e-industria/maquinas-para-producao-industrial'',
    ''agro-e-industria/pecas-para-tratores-e-maquinas'',
    ''agro-e-industria/animais-para-agropecuaria'', ''agro-e-industria/producao-rural'',
    ''agro-e-industria/outros-itens-para-agro-e-industria'', ''servicos'', ''vagas-de-emprego'']"

record options =
  limit :: int
  timeout :: int
  sort_order :: "string option"
  concurrency :: int
  state :: "string option"
  category :: "string option"
  strict :: bool

definition default_options :: options where
  "default_options = \<lparr>limit = DEFAULT_LIMIT, timeout = DEFAULT_TIMEOUT, sort_order = None,
     concurrency = DEFAULT_CONCURRENCY, state = None, category = None, strict = False\<rparr>"

record result =
  items :: "item list"
  pg_total :: nat
  pg_pageSize :: nat
  pg_limit :: int
  pg_maxPages :: nat
  pg_resultsLimit :: nat
  capped :: bool

record pstate =
  seenIds :: "nat set"
  p_items :: "item list"
  currentPage :: nat

definition less_total :: "nat \<Rightarrow> nat option \<Rightarrow> bool" where
  \<comment> \<open>\<open>n < totalAvailable\<close>, where a missing total is \<open>Infinity\<close>\<close>
  "less_total n t = (case t of None \<Rightarrow> True | Some m \<Rightarrow> n < m)"

definition more_pages :: "int \<Rightarrow> nat \<Rightarrow> nat option \<Rightarrow> pstate \<Rightarrow> bool" where
  \<comment> \<open>the condition of the pagination loop\<close>
  "more_pages lmt psize totalAvailable st =
     (int (length (p_items st)) < lmt \<and> less_total (currentPage st * psize) totalAvailable
      \<and> currentPage st < MAX_PAGES)"

definition addPage :: "raw_ad option list \<Rightarrow> nat \<Rightarrow> pstate \<Rightarrow> pstate" where
  \<comment> \<open>the accumulation of one fetched page\<close>
  "addPage pageAds page st =
     (let acc = fold pushUnique (parseAds pageAds) (seenIds st, p_items st)
      in \<lparr>seenIds = fst acc, p_items = snd acc, currentPage = page\<rparr>)"

function paginate ::
  "web \<Rightarrow> string \<Rightarrow> options \<Rightarrow> string option \<Rightarrow> nat \<Rightarrow> nat option \<Rightarrow> pstate
     \<Rightarrow> request list \<times> (error + pstate)" where
  "paginate W query opts singleState psize totalAvailable st =
     (if more_pages (limit opts) psize totalAvailable st then
        let page = currentPage st + 1;
            pageUrl = buildUrl query (sort_order opts) page singleState (category opts)
        in (case pages W pageUrl of
              TransportFailure \<Rightarrow> ([PageRequest pageUrl], Inl TransportError)
            | Document doc \<Rightarrow>
                (case extractNextData doc of
                   None \<Rightarrow> ([PageRequest pageUrl], Inr (st\<lparr>currentPage := page\<rparr>))
                 | Some pageState \<Rightarrow>
                     (case ads pageState of
                        None \<Rightarrow> ([PageRequest pageUrl], Inr (st\<lparr>currentPage := page\<rparr>))
                      | Some pageAds \<Rightarrow>
                          if pageAds = [] then ([PageRequest pageUrl], Inr (st\<lparr>currentPage := page\<rparr>))
                          else
                            (case paginate W query opts singleState psize totalAvailable
                                    (addPage pageAds page st) of
                               (reqs, r) \<Rightarrow> (PageRequest pageUrl # reqs, r)))))
      else ([], Inr st))"
  by pat_completeness auto
termination
  by (relation "measure (\<lambda>(W, query, opts, singleState, psize, totalAvailable, st).
        MAX_PAGES - currentPage st)")
     (auto simp: more_pages_def addPage_def Let_def)

declare paginate.simps [simp del]

definition assignDetail :: "item \<Rightarrow> detail \<Rightarrow> item" where
  \<comment> \<open>\<open>Object.assign(item, {description, attributes, sellerName})\<close>\<close>
  "assignDetail it d =
     it\<lparr>description := d_description d, attributes := d_attributes d,
        sellerName := d_sellerName d\<rparr>"

definition enrichBatch :: "web \<Rightarrow> nat list \<Rightarrow> item list \<times> request list \<Rightarrow> item list \<times> request list" where
  \<comment> \<open>one batch: every detail page of the batch is requested, then each result that came
      back is assigned to its item; \<open>batch\<close> holds the positions of the items\<close>
  "enrichBatch W batch st =
     (let links = map (\<lambda>k. permalink (fst st ! k)) batch;
          results = map (details W) links
      in (fold (\<lambda>(k, r) l. case r of None \<Rightarrow> l | Some d \<Rightarrow> l[k := assignDetail (l ! k) d])
            (zip batch results) (fst st),
          snd st @ map DetailRequest links))"

partial_function (option) enrichLoop ::
  "web \<Rightarrow> int \<Rightarrow> nat list \<Rightarrow> int \<Rightarrow> item list \<times> request list
     \<Rightarrow> (item list \<times> request list) option" where
  "enrichLoop W conc queue i st =
     (if i < int (length queue)
      then enrichLoop W conc queue (i + conc) (enrichBatch W (js_slice queue i (i + conc)) st)
      else Some st)"

declare enrichLoop.simps [code]

definition enrich :: "web \<Rightarrow> int \<Rightarrow> item list \<Rightarrow> (item list \<times> request list) option" where
  \<comment> \<open>\<open>queue\<close> is the positions of the items that carry a link\<close>
  "enrich W conc l =
     (if l \<noteq> [] then
        enrichLoop W conc (filter (\<lambda>k. permalink (l ! k) \<noteq> []) [0..<length l]) 0 (l, [])
      else Some (l, []))"

definition strictFilter :: "bool \<Rightarrow> string \<Rightarrow> item list \<Rightarrow> item list" where
  "strictFilter strct query l =
     (if strct then
        (let tokens = getQueryTokens query
         in if tokens \<noteq> [] then filter (\<lambda>it. matchesTokens it tokens) l else l)
      else l)"

definition pageSizeOf :: "pageProps \<Rightarrow> nat" where
  \<comment> \<open>\<open>firstState.pageSize || 50\<close>\<close>
  "pageSizeOf firstState = (case pageSize firstState of None \<Rightarrow> 50 | Some n \<Rightarrow> if n = 0 then 50 else n)"

definition firstPageState :: "raw_ad option list \<Rightarrow> pstate" where
  \<comment> \<open>the state after the first page: its items as parsed, and their identities as seen\<close>
  "firstPageState firstAds =
     \<lparr>seenIds = fold addSeen (parseAds firstAds) {}, p_items = parseAds firstAds, currentPage = 1\<rparr>"

definition isCapped :: "int \<Rightarrow> nat \<Rightarrow> nat option \<Rightarrow> pstate \<Rightarrow> bool" where
  \<comment> \<open>\<open>items.length >= limit || (currentPage >= MAX_PAGES && currentPage * pageSize <
      totalAvailable)\<close>, taken when the loop has ended\<close>
  "isCapped lmt psize totalAvailable st =
     (lmt \<le> int (length (p_items st))
      \<or> (MAX_PAGES \<le> currentPage st \<and> less_total (currentPage st * psize) totalAvailable))"

definition searchSingle ::
  "web \<Rightarrow> string \<Rightarrow> options \<Rightarrow> string option
     \<Rightarrow> (request list \<times> (error + result)) option" where
  \<comment> \<open>the body of \<open>search\<close> for at most one region; \<open>None\<close> when it never returns\<close>
  "searchSingle W query opts singleState =
     (let firstUrl = buildUrl query (sort_order opts) 1 singleState (category opts) in
      case pages W firstUrl of
        TransportFailure \<Rightarrow> Some ([PageRequest firstUrl], Inl TransportError)
      | Document doc \<Rightarrow>
          (case extractNextData doc of
             None \<Rightarrow> Some ([PageRequest firstUrl], Inl ExtractionError)
           | Some firstState \<Rightarrow>
               (case ads firstState of
                  None \<Rightarrow> Some ([PageRequest firstUrl], Inl ExtractionError)
                | Some firstAds \<Rightarrow>
                    (case paginate W query opts singleState (pageSizeOf firstState)
                            (totalOfAds firstState) (firstPageState firstAds) of
                       (reqs, Inl e) \<Rightarrow> Some (PageRequest firstUrl # reqs, Inl e)
                     | (reqs, Inr st) \<Rightarrow>
                         (case enrich W (concurrency opts)
                                 (sortAndCut (sort_order opts) (limit opts)
                                    (strictFilter (strict opts) query (p_items st))) of
                            None \<Rightarrow> None
                          | Some (enriched, dreqs) \<Rightarrow>
                              Some (PageRequest firstUrl # reqs @ dreqs,
                                Inr \<lparr>items = enriched,
                                     pg_total = (case totalOfAds firstState of
                                                   None \<Rightarrow> length enriched
                                                 | Some n \<Rightarrow> if n = 0 then length enriched else n),
                                     pg_pageSize = pageSizeOf firstState, pg_limit = limit opts,
                                     pg_maxPages = MAX_PAGES,
                                     pg_resultsLimit = MAX_PAGES * pageSizeOf firstState,
                                     capped = isCapped (limit opts) (pageSizeOf firstState)
                                                (totalOfAds firstState) st\<rparr>))))))"

definition fulfilled :: "(request list \<times> (error + result)) list \<Rightarrow> result list" where
  \<comment> \<open>the values of the settled outcomes that are not rejections\<close>
  "fulfilled settled = List.map_filter (\<lambda>outcome. case snd outcome of Inl e \<Rightarrow> None | Inr r \<Rightarrow> Some r) settled"

definition searchMulti ::
  "web \<Rightarrow> string \<Rightarrow> options \<Rightarrow> string list \<Rightarrow> (request list \<times> (error + result)) option" where
  \<comment> \<open>the body of \<open>search\<close> for two or more regions. Each region is searched by \<open>search\<close>
      itself with that one region, which passes validation again and runs the
      single-region body; the requests of the regions are listed region by region.\<close>
  "searchMulti W query opts stateList =
     (case those (map (\<lambda>s. searchSingle W query
                     (opts\<lparr>state := Some s,
                           limit := (if strict opts then limit opts * 3 else limit opts)\<rparr>)
                     (Some s)) stateList) of
        None \<Rightarrow> None
      | Some settled \<Rightarrow>
          let rs = fulfilled settled;
              psize = (case rs of [] \<Rightarrow> 50
                       | r # _ \<Rightarrow> if pg_pageSize r = 0 then 50 else pg_pageSize r);
              merged = mergeRegions (map items rs);
              filtered = (if strict opts then filter (\<lambda>it. matchesQuery it query) merged
                          else merged);
              shaped = sortAndCut (sort_order opts) (limit opts) filtered
          in Some (concat (map fst settled),
               Inr \<lparr>items = shaped, pg_total = sum_list (map pg_total rs), pg_pageSize = psize,
                    pg_limit = limit opts, pg_maxPages = 20, pg_resultsLimit = 20 * psize,
                    capped = (limit opts \<le> int (length shaped))\<rparr>))"

definition parseStates :: "string option \<Rightarrow> string list" where
  \<comment> \<open>\<open>state ? state.split(",").map((s) => s.trim().toLowerCase()).filter(Boolean) : []\<close>\<close>
  "parseStates st =
     (if truthy st
      then filter (\<lambda>s. s \<noteq> []) (map (\<lambda>s. toLowerCase (trim s)) (split_on CHR '','' (the st)))
      else [])"

definition search ::
  "web \<Rightarrow> string \<Rightarrow> options \<Rightarrow> (request list \<times> (error + result)) option" where
  "search W query opts =
     (if truthy (category opts) \<and> the (category opts) \<notin> set CATEGORIES
      then Some ([], Inl (UnknownCategory (the (category opts))))
      else
        let stateList = parseStates (state opts) in
        (case find (\<lambda>s. s \<notin> set VALID_STATES) stateList of
           Some s \<Rightarrow> Some ([], Inl (UnknownState s))
         | None \<Rightarrow>
             if 1 < length stateList then searchMulti W query opts stateList
             else searchSingle W query opts (case stateList of [] \<Rightarrow> None | s # _ \<Rightarrow> Some s)))"

definition searchRaw :: "web \<Rightarrow> string \<Rightarrow> options \<Rightarrow> request list \<times> (error + pageProps)" where
  "searchRaw W query opts =
     (if truthy (category opts) \<and> the (category opts) \<notin> set CATEGORIES
      then ([], Inl (UnknownCategory (the (category opts))))
      else
        let u = buildUrl query (sort_order opts) 1 (state opts) (category opts) in
        (case pages W u of
           TransportFailure \<Rightarrow> ([PageRequest u], Inl TransportError)
         | Document doc \<Rightarrow>
             (case extractNextData doc of
                None \<Rightarrow> ([PageRequest u], Inl ExtractionError)
              | Some state' \<Rightarrow> ([PageRequest u], Inr state'))))"

section \<open>The command line\<close>

text \<open>
  The front end reads its numeric options as text, checks them, and only then calls the
  library. The options that print help, the version or the list of categories, the check
  of the output format, and the rendering of the outcome are not modelled.
\<close>

definition parseInt10 :: "string \<Rightarrow> int option" where
  \<comment> \<open>\<open>parseInt(s, 10)\<close>: leading white space, a sign, then the longest run of digits, read
      as the nearest double. \<open>None\<close> is \<open>NaN\<close>, and also \<open>Infinity\<close> and \<open>-Infinity\<close>, which a run
      of digits past the largest double gives: \<open>Number.isInteger\<close> refuses the three alike.\<close>
  "parseInt10 s =
     (let t = dropWhile is_space s;
          neg = (t \<noteq> [] \<and> hd t = CHR ''-'');
          u = (if t \<noteq> [] \<and> (hd t = CHR ''-'' \<or> hd t = CHR ''+'') then tl t else t);
          ds = takeWhile is_digit u;
          v = to_double (of_nat (digits_value ds))
      in if ds = [] \<or> pow2 1024 \<le> v then None
         else Some (if neg then - \<lfloor>v\<rfloor> else \<lfloor>v\<rfloor>))"

record cli_args =
  cli_query :: string
  cli_limit :: "string option"
  cli_timeout :: "string option"
  cli_concurrency :: "string option"
  cli_sort :: "string option"
  cli_state :: "string option"
  cli_category :: "string option"
  cli_strict :: bool
  cli_raw :: bool

datatype cli_output = RawOutput pageProps | SearchOutput result

definition cli_number :: "string option \<Rightarrow> int \<Rightarrow> int option" where
  \<comment> \<open>\<open>opts.limit ? parseInt(opts.limit, 10) : 20\<close>\<close>
  "cli_number s d = (if truthy s then parseInt10 (the s) else Some d)"

definition positive_integer :: "int option \<Rightarrow> bool" where
  \<comment> \<open>\<open>Number.isInteger(n) && n >= 1\<close>\<close>
  "positive_integer n = (case n of None \<Rightarrow> False | Some k \<Rightarrow> 1 \<le> k)"

definition olx_search :: "web \<Rightarrow> cli_args \<Rightarrow> (request list \<times> (error + cli_output)) option" where
  "olx_search W args =
     (let query = trim (cli_query args) in
      if query = [] then Some ([], Inl NoQuery)
      else
        let lmt = cli_number (cli_limit args) 20;
            tmo = cli_number (cli_timeout args) 15000;
            conc = cli_number (cli_concurrency args) 5
        in if \<not> positive_integer conc then Some ([], Inl (InvalidOption ''--concurrency''))
           else if \<not> positive_integer lmt then Some ([], Inl (InvalidOption ''--limit''))
           else if \<not> positive_integer tmo then Some ([], Inl (InvalidOption ''--timeout''))
           else
             let opts = \<lparr>limit = the lmt, timeout = the tmo, sort_order = cli_sort args,
                          concurrency = the conc, state = cli_state args,
                          category = cli_category args, strict = cli_strict args\<rparr>
             in if cli_raw args
                then (case searchRaw W query opts of
                        (reqs, Inl e) \<Rightarrow> Some (reqs, Inl e)
                      | (reqs, Inr raw) \<Rightarrow> Some (reqs, Inr (RawOutput raw)))
                else (case search W query opts of
                        None \<Rightarrow> None
                      | Some (reqs, Inl e) \<Rightarrow> Some (reqs, Inl e)
                      | Some (reqs, Inr r) \<Rightarrow> Some (reqs, Inr (SearchOutput r))))"

section \<open>Notions used in the statements\<close>

definition listing_of :: "item \<Rightarrow> item" where
  \<comment> \<open>an item without what enrichment writes\<close>
  "listing_of it = it\<lparr>description := None, attributes := None, sellerName := None\<rparr>"

definition truthy_ids :: "item list \<Rightarrow> nat list" where
  \<comment> \<open>the identities that deduplication looks at, in order\<close>
  "truthy_ids l = filter (\<lambda>i. i \<noteq> 0) (List.map_filter item_id l)"

definition dedupById :: "item list \<Rightarrow> item list" where
  \<comment> \<open>a sequence without the later items of an identity already met\<close>
  "dedupById l = snd (fold pushUnique l ({}, []))"

definition priceless_last :: "item list \<Rightarrow> bool" where
  \<comment> \<open>no item with a price stands after an item without one\<close>
  "priceless_last l = list_all (\<lambda>it. price it = None) (dropWhile (\<lambda>it. price it \<noteq> None) l)"

definition positive_before_priceless :: "item list \<Rightarrow> bool" where
  \<comment> \<open>no item with a price above zero stands after an item without one\<close>
  "positive_before_priceless l =
     list_all (\<lambda>it. case price it of None \<Rightarrow> True | Some p \<Rightarrow> p \<le> 0)
       (dropWhile (\<lambda>it. price it \<noteq> None) l)"

definition asc_le :: "item \<Rightarrow> item \<Rightarrow> bool" where
  \<comment> \<open>the order of prices in which a missing price is the greatest\<close>
  "asc_le a b = (case price b of None \<Rightarrow> True
                 | Some y \<Rightarrow> (case price a of None \<Rightarrow> False | Some x \<Rightarrow> x \<le> y))"

definition desc_le :: "item \<Rightarrow> item \<Rightarrow> bool" where
  \<comment> \<open>the descending order of prices in which a missing price counts as 0\<close>
  "desc_le a b = ((case price b of None \<Rightarrow> 0 | Some y \<Rightarrow> y) \<le> (case price a of None \<Rightarrow> 0 | Some x \<Rightarrow> x))"


definition item_corpus :: "item \<Rightarrow> string" where
  \<comment> \<open>the corpus of an item: its title, description and property values\<close>
  "item_corpus it = corpus (title it) (description it)
     (case properties it of None \<Rightarrow> [] | Some ps \<Rightarrow> map prop_value ps)"

definition pageRecords :: "web \<Rightarrow> string \<Rightarrow> options \<Rightarrow> string option \<Rightarrow> nat \<Rightarrow> raw_ad option list" where
  \<comment> \<open>the records of page \<open>n\<close> of a scope: none when the page cannot be fetched or read\<close>
  "pageRecords W query opts singleState n =
     (case pages W (buildUrl query (sort_order opts) n singleState (category opts)) of
        TransportFailure \<Rightarrow> []
      | Document doc \<Rightarrow>
          (case doc of None \<Rightarrow> []
           | Some pageState \<Rightarrow> (case ads pageState of None \<Rightarrow> [] | Some l \<Rightarrow> l)))"

fun stateAfter :: "web \<Rightarrow> string \<Rightarrow> options \<Rightarrow> string option \<Rightarrow> pstate \<Rightarrow> nat \<Rightarrow> pstate" where
  \<comment> \<open>what has been gathered after \<open>n\<close> pages, \<open>first\<close> being the state after the first\<close>
  "stateAfter W query opts singleState first 0 = first"
| "stateAfter W query opts singleState first (Suc n) =
     (if n = 0 then first
      else addPage (pageRecords W query opts singleState (Suc n)) (Suc n)
             (stateAfter W query opts singleState first n))"

definition stops_after ::
  "web \<Rightarrow> string \<Rightarrow> options \<Rightarrow> string option \<Rightarrow> nat \<Rightarrow> nat option \<Rightarrow> pstate \<Rightarrow> nat \<Rightarrow> bool" where
  \<comment> \<open>one of the four stop conditions holds once \<open>n\<close> pages have been fetched: the limit is
      reached, the next page would start at or past the reported total, the page budget is
      used up, or page \<open>n\<close> (a page after the first) held no records\<close>
  "stops_after W query opts singleState psize totalAvailable first n =
     (limit opts \<le> int (length (p_items (stateAfter W query opts singleState first n)))
      \<or> \<not> less_total (n * psize) totalAvailable
      \<or> MAX_PAGES \<le> n
      \<or> (2 \<le> n \<and> pageRecords W query opts singleState n = []))"

definition pageUrls :: "string \<Rightarrow> options \<Rightarrow> string option \<Rightarrow> nat \<Rightarrow> nat \<Rightarrow> request list" where
  \<comment> \<open>the requests for the pages \<open>m + 1\<close> to \<open>k\<close> of a scope\<close>
  "pageUrls query opts singleState m k =
     map (\<lambda>n. PageRequest (buildUrl query (sort_order opts) n singleState (category opts)))
       [Suc m..<Suc k]"

definition returned :: "(request list \<times> (error + 'a)) option \<Rightarrow> 'a option" where
  \<comment> \<open>the value of a call that returned one\<close>
  "returned x =
     (case x of None \<Rightarrow> None | Some (reqs, Inl e) \<Rightarrow> None | Some (reqs, Inr r) \<Rightarrow> Some r)"

definition desc_key :: "item \<Rightarrow> rat" where
  \<comment> \<open>the price by which the descending order compares: a missing price is 0\<close>
  "desc_key it = (case price it of None \<Rightarrow> 0 | Some p \<Rightarrow> p)"









section \<open>Sample data\<close>

definition sample_item :: "nat \<Rightarrow> rat option \<Rightarrow> item" where
  \<comment> \<open>an item with the given identity (0 for none) and price\<close>
  "sample_item i p = \<lparr>item_id = (if i = 0 then None else Some i), title = ''item'', price = p,
     oldPrice = None, discountPercent = None, permalink = [], properties = None,
     description = None, attributes = None, sellerName = None\<rparr>"


definition sample_ad :: "nat \<Rightarrow> string \<Rightarrow> string option \<Rightarrow> string option \<Rightarrow> raw_ad" where
  \<comment> \<open>a raw advertisement with the given \<open>listId\<close> (0 for none), subject, price and old
      price\<close>
  "sample_ad i subj pr old = \<lparr>ad_subject = Some subj, ad_title = None, ad_priceValue = pr,
     ad_price = None, ad_oldPrice = old, ad_listId = (if i = 0 then None else Some i),
     ad_url = None, ad_friendlyUrl = None, ad_properties = None\<rparr>"

definition sample_page :: "raw_ad option list \<Rightarrow> nat option \<Rightarrow> nat option \<Rightarrow> response" where
  \<comment> \<open>a search page with the given records, reported total and reported page size\<close>
  "sample_page l t p = Document (Some \<lparr>ads = Some l, totalOfAds = t, pageSize = p\<rparr>)"


definition two_ads_web :: web where
  \<comment> \<open>every address shows the same page of two records\<close>
  "two_ads_web = \<lparr>pages = (\<lambda>u. sample_page [Some (sample_ad 1 ''Mesa'' None None),
       Some (sample_ad 2 ''Cadeira'' None None)] (Some 2) (Some 50)),
     details = (\<lambda>l. None)\<rparr>"

definition twin_ads_web :: web where
  \<comment> \<open>every address shows the same page, which lists one advertisement twice\<close>
  "twin_ads_web = \<lparr>pages = (\<lambda>u. sample_page [Some (sample_ad 7 ''Mesa'' None None),
       Some (sample_ad 7 ''Mesa'' None None)] (Some 2) (Some 50)),
     details = (\<lambda>l. None)\<rparr>"

definition sample_args :: "string option \<Rightarrow> cli_args" where
  \<comment> \<open>a command line with the query \<open>mesa\<close> and the given \<open>--limit\<close>\<close>
  "sample_args lmt = \<lparr>cli_query = ''mesa'', cli_limit = lmt, cli_timeout = None,
     cli_concurrency = None, cli_sort = None, cli_state = None, cli_category = None,
     cli_strict = False, cli_raw = False\<rparr>"

definition linked_ad :: "nat \<Rightarrow> string \<Rightarrow> string \<Rightarrow> raw_ad" where
  \<comment> \<open>a raw advertisement that carries a link to its detail page\<close>
  "linked_ad i subj link = (sample_ad i subj None None)\<lparr>ad_url := Some link\<rparr>"

definition linked_item :: "nat \<Rightarrow> string \<Rightarrow> string \<Rightarrow> item" where
  \<comment> \<open>the item made of it\<close>
  "linked_item i subj link = (sample_item i None)\<lparr>title := subj, permalink := link\<rparr>"

definition described_web :: web where
  \<comment> \<open>one page of two linked records; only the detail page of the second, whose title
      lacks the word, has a description, and the description has the word \<open>hello\<close>\<close>
  "described_web =
     \<lparr>pages = (\<lambda>u. sample_page [Some (linked_ad 1 ''Mesa hello'' ''/a''),
                                   Some (linked_ad 2 ''Cadeira'' ''/b'')] (Some 2) (Some 50)),
      details = (\<lambda>l. if l = ''/b''
                      then Some \<lparr>d_description = Some ''hello'', d_attributes = None,
                                  d_sellerName = None\<rparr>
                      else None)\<rparr>"

definition endless_web :: web where
  \<comment> \<open>every address shows a page of one record without identity, and reports 1000 records
      in pages of 1\<close>
  "endless_web =
     \<lparr>pages = (\<lambda>u. sample_page [Some (sample_ad 0 ''Mesa'' None None)] (Some 1000) (Some 1)),
      details = (\<lambda>l. None)\<rparr>"




section \<open>Properties\<close>

lemma starts_with_iff: "starts_with s t \<longleftrightarrow> prefix t s"
  by (induction s t rule: starts_with.induct) auto

subsection \<open>The round-robin merge\<close>

lemma mergeRank_fold:
  "mergeRank i arrs st = fold pushUnique (map (\<lambda>xs. xs ! i) (filter (\<lambda>ys. i < length ys) arrs)) st"
  unfolding mergeRank_def by (induction arrs arbitrary: st) (auto simp: not_less)

lemma fold_concat': "fold f (concat xss) st = fold (fold f) xss st"
  by (induction xss arbitrary: st) simp_all

lemma mergeRegions_dedup: "mergeRegions arrs = dedupById (concat (transpose arrs))"
proof -
  let ?n = "length (transpose arrs)"
  let ?st = "({}, []) :: nat set \<times> item list"
  have len: "foldr (\<lambda>arr m. max (length arr) m) arrs 0 = ?n"
    by (simp add: length_transpose)
  have "fold (\<lambda>i acc. mergeRank i arrs acc) [0..<?n] ?st
        = fold (\<lambda>i. fold pushUnique (transpose arrs ! i)) [0..<?n] ?st"
    by (rule fold_cong) (simp_all add: mergeRank_fold nth_transpose)
  also have "\<dots> = fold (fold pushUnique) (map (\<lambda>i. transpose arrs ! i) [0..<?n]) ?st"
    by (simp add: fold_map comp_def)
  also have "\<dots> = fold (fold pushUnique) (transpose arrs) ?st"
    by (simp only: map_nth)
  also have "\<dots> = fold pushUnique (concat (transpose arrs)) ?st"
    by (simp add: fold_concat')
  finally show ?thesis
    by (simp add: mergeRegions_def dedupById_def len Let_def)
qed

lemma fold_pushUnique_distinct:
  "distinct (truthy_ids l) \<Longrightarrow> set (truthy_ids l) \<inter> seen = {} \<Longrightarrow>
   fold pushUnique l (seen, acc) = (seen \<union> set (truthy_ids l), acc @ l)"
proof (induction l arbitrary: seen acc)
  case Nil
  then show ?case by (simp add: truthy_ids_def List.map_filter_simps)
next
  case (Cons a l)
  show ?case
  proof (cases "item_id a")
    case None
    then have t: "truthy_ids (a # l) = truthy_ids l"
      by (simp add: truthy_ids_def List.map_filter_simps)
    have "pushUnique a (seen, acc) = (seen, acc @ [a])"
      using None by (simp add: pushUnique_def)
    then show ?thesis using Cons t by simp
  next
    case (Some i)
    show ?thesis
    proof (cases "i = 0")
      case True
      then have t: "truthy_ids (a # l) = truthy_ids l"
        using Some by (simp add: truthy_ids_def List.map_filter_simps)
      have "pushUnique a (seen, acc) = (seen, acc @ [a])"
        using Some True by (simp add: pushUnique_def)
      then show ?thesis using Cons t by simp
    next
      case False
      then have t: "truthy_ids (a # l) = i # truthy_ids l"
        using Some by (simp add: truthy_ids_def List.map_filter_simps)
      have "i \<notin> seen" using Cons.prems t by auto
      then have p: "pushUnique a (seen, acc) = (insert i seen, acc @ [a])"
        using Some False by (simp add: pushUnique_def)
      have "fold pushUnique l (insert i seen, acc @ [a])
            = (insert i seen \<union> set (truthy_ids l), (acc @ [a]) @ l)"
        using Cons.prems t by (intro Cons.IH) auto
      then show ?thesis using p t by simp
    qed
  qed
qed

lemma dedupById_distinct: "distinct (truthy_ids l) \<Longrightarrow> dedupById l = l"
  by (simp add: dedupById_def fold_pushUnique_distinct)

lemma truthy_ids_append: "truthy_ids (xs @ ys) = truthy_ids xs @ truthy_ids ys"
  by (simp add: truthy_ids_def map_filter_def)

lemma truthy_ids_concat: "truthy_ids (concat xss) = concat (map truthy_ids xss)"
  by (induction xss) (simp_all add: truthy_ids_append, simp add: truthy_ids_def map_filter_def)

lemma mset_truthy_ids: "mset xs = mset ys \<Longrightarrow> mset (truthy_ids xs) = mset (truthy_ids ys)"
  by (simp add: truthy_ids_def map_filter_def)

lemma mset_heads_tails:
  "mset [h. (h # t) \<leftarrow> xss] + mset (concat [t. (h # t) \<leftarrow> xss]) = mset (concat xss)"
  by (induction xss) (auto split: list.split)

lemma mset_concat_transpose: "mset (concat (transpose xss)) = mset (concat xss)"
proof (induction xss rule: transpose.induct)
  case 1
  then show ?case by simp
next
  case (2 xss)
  then show ?case by simp
next
  case (3 x xs xss)
  have "mset (concat (transpose ((x # xs) # xss)))
        = {#x#} + mset [h. (h # t) \<leftarrow> xss] + (mset xs + mset (concat [t. (h # t) \<leftarrow> xss]))"
    using 3 by simp
  also have "\<dots> = {#x#} + mset xs + mset (concat xss)"
    using mset_heads_tails[of xss] by (simp add: ac_simps)
  finally show ?case by simp
qed

lemma distinct_truthy_ids_transpose:
  "distinct (truthy_ids (concat xss)) \<Longrightarrow> distinct (truthy_ids (concat (transpose xss)))"
  using mset_eq_imp_distinct_iff[OF mset_truthy_ids[OF mset_concat_transpose, of xss]] by simp

lemma mergeRegions_interleaves:
  "distinct (truthy_ids (concat stateResults))
     \<Longrightarrow> mergeRegions stateResults = concat (transpose stateResults)"
  by (simp add: mergeRegions_dedup dedupById_distinct distinct_truthy_ids_transpose)

subsection \<open>Sorting and cutting\<close>

lemma set_insert_sorted: "set (insert_sorted cmp x ys) = insert x (set ys)"
  by (induction ys) auto

lemma mset_insert_sorted: "mset (insert_sorted cmp x ys) = add_mset x (mset ys)"
  by (induction ys) auto

lemma mset_js_sort: "mset (js_sort cmp xs) = mset xs"
  by (induction xs) (simp_all add: js_sort_def mset_insert_sorted)

lemma sorted_insert_sorted:
  assumes tot: "\<And>a b. le a b \<or> le b a"
    and trans: "\<And>a b c. le a b \<Longrightarrow> le b c \<Longrightarrow> le a c"
    and pos: "\<And>a b. is_positive (cmp a b) \<longleftrightarrow> \<not> le a b"
  shows "sorted_wrt le ys \<Longrightarrow> sorted_wrt le (insert_sorted cmp x ys)"
proof (induction ys)
  case Nil
  then show ?case by simp
next
  case (Cons y ys)
  show ?case
  proof (cases "is_positive (cmp x y)")
    case True
    then have "le y x" using pos tot by blast
    then show ?thesis using True Cons by (auto simp: set_insert_sorted)
  next
    case False
    then have "le x y" using pos by blast
    then show ?thesis using False Cons.prems trans by auto
  qed
qed

lemma sorted_js_sort:
  assumes "\<And>a b. le a b \<or> le b a"
    and "\<And>a b c. le a b \<Longrightarrow> le b c \<Longrightarrow> le a c"
    and "\<And>a b. is_positive (cmp a b) \<longleftrightarrow> \<not> le a b"
  shows "sorted_wrt le (js_sort cmp xs)"
proof (induction xs)
  case Nil
  then show ?case by (simp add: js_sort_def)
next
  case (Cons x xs)
  have "js_sort cmp (x # xs) = insert_sorted cmp x (js_sort cmp xs)"
    by (simp add: js_sort_def)
  then show ?case
    using sorted_insert_sorted[of le cmp, OF assms] Cons by simp
qed

lemma cmp_asc_positive: "is_positive (cmp_price_asc a b) \<longleftrightarrow> \<not> asc_le a b"
  by (auto simp: cmp_price_asc_def price_or_def asc_le_def split: option.splits)

lemma cmp_desc_positive: "is_positive (cmp_price_desc a b) \<longleftrightarrow> \<not> desc_le a b"
  by (auto simp: cmp_price_desc_def price_or_def desc_le_def split: option.splits)

lemma sorted_asc: "sorted_wrt asc_le (js_sort cmp_price_asc l)"
proof (rule sorted_js_sort)
  show "asc_le a b \<or> asc_le b a" for a b
    by (auto simp: asc_le_def split: option.splits)
  show "asc_le a b \<Longrightarrow> asc_le b c \<Longrightarrow> asc_le a c" for a b c
    by (auto simp: asc_le_def split: option.splits)
  show "is_positive (cmp_price_asc a b) \<longleftrightarrow> \<not> asc_le a b" for a b
    by (rule cmp_asc_positive)
qed

lemma sorted_desc: "sorted_wrt desc_le (js_sort cmp_price_desc l)"
proof (rule sorted_js_sort)
  show "desc_le a b \<or> desc_le b a" for a b
    by (auto simp: desc_le_def)
  show "desc_le a b \<Longrightarrow> desc_le b c \<Longrightarrow> desc_le a c" for a b c
    by (auto simp: desc_le_def)
  show "is_positive (cmp_price_desc a b) \<longleftrightarrow> \<not> desc_le a b" for a b
    by (rule cmp_desc_positive)
qed

lemma after_priceless:
  assumes "sorted_wrt le l"
    and self: "\<And>a. price a = None \<Longrightarrow> Q a"
    and later: "\<And>a b. price a = None \<Longrightarrow> le a b \<Longrightarrow> Q b"
  shows "list_all Q (dropWhile (\<lambda>it. price it \<noteq> None) l)"
  using assms(1)
proof (induction l)
  case Nil
  then show ?case by simp
next
  case (Cons a l)
  show ?case
  proof (cases "price a")
    case None
    have "\<forall>b\<in>set l. le a b" using Cons.prems by simp
    then have "\<forall>b\<in>set l. Q b" using later None by blast
    then show ?thesis using None self by (simp add: list_all_iff)
  next
    case (Some p)
    then show ?thesis using Cons by simp
  qed
qed

lemma priceless_last_asc: "priceless_last (js_sort cmp_price_asc l)"
  unfolding priceless_last_def
  by (rule after_priceless[OF sorted_asc]) (auto simp: asc_le_def split: option.splits)

lemma positive_before_priceless_desc: "positive_before_priceless (js_sort cmp_price_desc l)"
  unfolding positive_before_priceless_def
  by (rule after_priceless[OF sorted_desc]) (auto simp: desc_le_def split: option.splits)

lemma insert_sorted_stable:
  "filter (\<lambda>y. price y = k) (insert_sorted cmp_price_asc x ys)
     = (if price x = k then x # filter (\<lambda>y. price y = k) ys else filter (\<lambda>y. price y = k) ys)"
  by (induction ys) (auto simp: cmp_price_asc_def price_or_def split: option.splits)

lemma insert_sorted_stable_desc:
  "filter (\<lambda>y. price y = k) (insert_sorted cmp_price_desc x ys)
     = (if price x = k then x # filter (\<lambda>y. price y = k) ys else filter (\<lambda>y. price y = k) ys)"
  by (induction ys) (auto simp: cmp_price_desc_def price_or_def split: option.splits)

lemma sortItems_stable: "filter (\<lambda>y. price y = k) (sortItems srt l) = filter (\<lambda>y. price y = k) l"
proof -
  have "filter (\<lambda>y. price y = k) (js_sort cmp_price_asc l) = filter (\<lambda>y. price y = k) l"
    by (induction l) (simp_all add: js_sort_def insert_sorted_stable)
  moreover have "filter (\<lambda>y. price y = k) (js_sort cmp_price_desc l) = filter (\<lambda>y. price y = k) l"
    by (induction l) (simp_all add: js_sort_def insert_sorted_stable_desc)
  ultimately show ?thesis by (simp add: sortItems_def)
qed

lemma js_slice_0: "0 \<le> e \<Longrightarrow> js_slice xs 0 e = take (nat e) xs"
  by (simp add: js_slice_def slice_index_def Let_def min_def)

lemma js_slice_0_neg: "e < 0 \<Longrightarrow> js_slice xs 0 e = take (length xs - nat (- e)) xs"
proof -
  assume "e < 0"
  then have "nat (max (int (length xs) + e) 0) = length xs - nat (- e)" by linarith
  then show ?thesis using \<open>e < 0\<close> by (simp add: js_slice_def slice_index_def Let_def)
qed

lemma insert_sorted_stable_key:
  "filter (\<lambda>y. desc_key y = k) (insert_sorted cmp_price_desc x ys)
     = (if desc_key x = k then x # filter (\<lambda>y. desc_key y = k) ys
        else filter (\<lambda>y. desc_key y = k) ys)"
  by (induction ys) (auto simp: cmp_price_desc_def price_or_def desc_key_def split: option.splits)

lemma js_sort_desc_stable:
  "filter (\<lambda>y. desc_key y = k) (js_sort cmp_price_desc l) = filter (\<lambda>y. desc_key y = k) l"
  by (induction l) (simp_all add: js_sort_def insert_sorted_stable_key)

text \<open>
  Claim C6, as the code has it. Only the two price orders sort, and they sort stably: items
  that compare equal keep their order. Every other value of the sort option, \<open>date\<close> and
  \<open>relevance\<close> included, leaves the sequence as it is. In the ascending order a missing
  price counts as infinity, so items without a price come last. In the descending order a
  missing price counts as 0: items without a price come after every item priced above 0,
  and compare equal to the items priced 0, so that the two kinds keep their order. The cut
  to the limit comes after the sort. Prices \<open>[null, 100, 50]\<close> give \<open>[50, 100, null]\<close>
  ascending and \<open>[100, 50, null]\<close> descending.
\<close>

theorem sortItems_by_price:
  "(srt \<noteq> Some ''price_asc'' \<and> srt \<noteq> Some ''price_desc'' \<longrightarrow> sortItems srt l = l)
   \<and> mset (sortItems srt l) = mset l
   \<and> (\<forall>k. filter (\<lambda>y. price y = k) (sortItems srt l) = filter (\<lambda>y. price y = k) l)
   \<and> sorted_wrt asc_le (sortItems (Some ''price_asc'') l)
   \<and> priceless_last (sortItems (Some ''price_asc'') l)
   \<and> sorted_wrt desc_le (sortItems (Some ''price_desc'') l)
   \<and> positive_before_priceless (sortItems (Some ''price_desc'') l)
   \<and> (\<forall>k. filter (\<lambda>y. desc_key y = k) (sortItems (Some ''price_desc'') l)
             = filter (\<lambda>y. desc_key y = k) l)
   \<and> sortAndCut srt lmt l = js_slice (sortItems srt l) 0 lmt
   \<and> (price a = None \<and> price b = Some 100 \<and> price c = Some 50 \<longrightarrow>
        sortItems (Some ''price_asc'') [a, b, c] = [c, b, a]
        \<and> sortItems (Some ''price_desc'') [a, b, c] = [b, c, a]
        \<and> sortAndCut (Some ''price_asc'') 2 [a, b, c] = [c, b])
   \<and> (price a = None \<and> price z = Some 0 \<longrightarrow>
        sortItems (Some ''price_desc'') [a, z] = [a, z]
        \<and> sortItems (Some ''price_desc'') [z, a] = [z, a])"
proof (intro conjI allI impI)
  show "sortItems srt l = l" if "srt \<noteq> Some ''price_asc'' \<and> srt \<noteq> Some ''price_desc''"
    using that by (simp add: sortItems_def)
  show "mset (sortItems srt l) = mset l"
    by (simp add: sortItems_def mset_js_sort)
  show "filter (\<lambda>y. price y = k) (sortItems srt l) = filter (\<lambda>y. price y = k) l" for k
    by (rule sortItems_stable)
  show "sorted_wrt asc_le (sortItems (Some ''price_asc'') l)"
    by (simp add: sortItems_def sorted_asc)
  show "priceless_last (sortItems (Some ''price_asc'') l)"
    by (simp add: sortItems_def priceless_last_asc)
  show "sorted_wrt desc_le (sortItems (Some ''price_desc'') l)"
    by (simp add: sortItems_def sorted_desc)
  show "positive_before_priceless (sortItems (Some ''price_desc'') l)"
    by (simp add: sortItems_def positive_before_priceless_desc)
  show "filter (\<lambda>y. desc_key y = k) (sortItems (Some ''price_desc'') l)
          = filter (\<lambda>y. desc_key y = k) l" for k
    by (simp add: sortItems_def js_sort_desc_stable)
  show "sortAndCut srt lmt l = js_slice (sortItems srt l) 0 lmt"
    by (simp add: sortAndCut_def)
next
  assume p: "price a = None \<and> price b = Some 100 \<and> price c = Some 50"
  show asc: "sortItems (Some ''price_asc'') [a, b, c] = [c, b, a]"
    using p by (simp add: sortItems_def js_sort_def cmp_price_asc_def price_or_def)
  show "sortItems (Some ''price_desc'') [a, b, c] = [b, c, a]"
    using p by (simp add: sortItems_def js_sort_def cmp_price_desc_def price_or_def)
  show "sortAndCut (Some ''price_asc'') 2 [a, b, c] = [c, b]"
    by (simp add: sortAndCut_def asc js_slice_0)
next
  assume p: "price a = None \<and> price z = Some 0"
  show "sortItems (Some ''price_desc'') [a, z] = [a, z]"
    using p by (simp add: sortItems_def js_sort_def cmp_price_desc_def price_or_def)
  show "sortItems (Some ''price_desc'') [z, a] = [z, a]"
    using p by (simp add: sortItems_def js_sort_def cmp_price_desc_def price_or_def)
qed

theorem sortItems_by_price_witness:
  "sortItems (Some ''date'') [sample_item 1 None, sample_item 2 (Some 100), sample_item 3 (Some 50)]
     = [sample_item 1 None, sample_item 2 (Some 100), sample_item 3 (Some 50)]
   \<and> sortItems (Some ''price_asc'') [sample_item 1 None, sample_item 2 (Some 100), sample_item 3 (Some 50)]
     = [sample_item 3 (Some 50), sample_item 2 (Some 100), sample_item 1 None]
   \<and> sortItems (Some ''price_desc'') [sample_item 1 None, sample_item 2 (Some 100), sample_item 3 (Some 50)]
     = [sample_item 2 (Some 100), sample_item 3 (Some 50), sample_item 1 None]
   \<and> sortAndCut (Some ''price_asc'') 2 [sample_item 1 None, sample_item 2 (Some 100), sample_item 3 (Some 50)]
     = [sample_item 3 (Some 50), sample_item 2 (Some 100)]
   \<and> sortItems (Some ''price_desc'') [sample_item 1 None, sample_item 4 (Some 0)]
     = [sample_item 1 None, sample_item 4 (Some 0)]
   \<and> sortItems (Some ''price_desc'') [sample_item 4 (Some 0), sample_item 1 None]
     = [sample_item 4 (Some 0), sample_item 1 None]"
  using sortItems_by_price[of "Some ''date''"
          "[sample_item 1 None, sample_item 2 (Some 100), sample_item 3 (Some 50)]"
          2 "sample_item 1 None" "sample_item 2 (Some 100)" "sample_item 3 (Some 50)"
          "sample_item 4 (Some 0)"]
  by (simp add: sample_item_def)

text \<open>
  The claim's "last in both orders" fails in the descending order next to an item priced
  0: the two tie, and the item without a price stays in front.
\<close>

theorem priceless_not_last_desc:
  "\<not> priceless_last (sortItems (Some ''price_desc'') [sample_item 1 None, sample_item 2 (Some 0)])"
  by (simp add: priceless_last_def sortItems_def js_sort_def cmp_price_desc_def price_or_def
        sample_item_def)

subsection \<open>Strict matching\<close>

lemma str_includes_iff: "str_includes s t \<longleftrightarrow> sublist t s"
  by (induction s) (auto simp: starts_with_iff sublist_Cons_right)

lemma of_char_lt_256: "(of_char c :: nat) < 256"
  by (cases c) simp










lemma matchesTokens_iff:
  "matchesTokens it tokens \<longleftrightarrow> (\<forall>t\<in>set tokens. sublist t (item_corpus it))"
  by (cases "tokens = []") (simp_all add: matchesTokens_def item_corpus_def list_all_iff str_includes_iff)












subsection \<open>Prices and discounts\<close>

lemma to_double_ties:
  "to_double 9007199254740993 = 9007199254740992"
  "to_double 9007199254740995 = 9007199254740996"
  "to_double (- (1 / 10)) = - (3602879701896397 / 36028797018963968)"
  by code_simp+

lemma to_double_examples:
  "to_double 0 = 0"
  "to_double 17 = 17"
  "to_double 40 = 40"
  "to_double 100 = 100"
  "to_double 3899 = 3899"
  "to_double 4999 = 4999"
  "to_double (2401 / 2) = 2401 / 2"
  "to_double (1 / 10) = 3602879701896397 / 36028797018963968"
  by code_simp+

lemma parsePrice_examples:
  "parsePrice (Some ''R$ 3.899'') = Some 3899"
  "parsePrice (Some ''R$ 4.999'') = Some 4999"
  "parsePrice (Some ''R$ 1.200,50'') = Some (2401 / 2)"
  "parsePrice (Some ''R$ 0'') = Some 0"
  "parsePrice (Some ''R$ 100'') = Some 100"
  "parsePrice (Some ''R$ 17'') = Some 17"
  "parsePrice (Some ''R$ 40'') = Some 40"
  "parsePrice (Some ''a combinar'') = None"
  by (simp_all add: parsePrice_def parseFloat_def is_digit_def digits_value_def
        to_double_examples)

text \<open>
  The discount of the specification's example, and one where the rounding of the quotient
  to a double decides: \<open>(40 - 17) / 40 * 100\<close> is \<open>57.5\<close> exactly and a little less in doubles.
\<close>

lemma discount_examples:
  "Math_round (to_double (to_double (to_double 1100 / 4999) * 100)) = 22"
  "Math_round (to_double (to_double (to_double 23 / 40) * 100)) = 57"
proof -
  have a: "to_double 1100 = 1100"
    "to_double (1100 / 4999) = 7927920928357745 / 36028797018963968"
    "to_double (7927920928357745 / 36028797018963968 * 100) = 12097047314999 / 549755813888"
    "Math_round (12097047314999 / 549755813888) = 22"
    by code_simp+
  have b: "to_double 23 = 23"
    "to_double (23 / 40) = 2589569785738035 / 4503599627370496"
    "to_double (2589569785738035 / 4503599627370496 * 100) = 8092405580431359 / 140737488355328"
    "Math_round (8092405580431359 / 140737488355328) = 57"
    by code_simp+
  show "Math_round (to_double (to_double (to_double 1100 / 4999) * 100)) = 22"
    by (simp only: a)
  show "Math_round (to_double (to_double (to_double 23 / 40) * 100)) = 57"
    by (simp only: b)
qed

lemma parseAd_discount_example:
  "parseAd (Some (sample_ad 1 ''Mesa'' (Some ''R$ 3.899'') (Some ''R$ 4.999'')))
     = Some ((sample_item 1 (Some 3899))\<lparr>title := ''Mesa'', oldPrice := Some 4999, discountPercent := Some 22\<rparr>)"
  by (simp add: parseAd_def sample_ad_def sample_item_def js_or_def truthy_def parsePrice_examples
        truthy_num_def parseProperties_def Let_def discount_examples)

lemma parseAd_discount_rounded:
  "parseAd (Some (sample_ad 1 ''Mesa'' (Some ''R$ 17'') (Some ''R$ 40'')))
     = Some ((sample_item 1 (Some 17))\<lparr>title := ''Mesa'', oldPrice := Some 40, discountPercent := Some 57\<rparr>)"
  by (simp add: parseAd_def sample_ad_def sample_item_def js_or_def truthy_def parsePrice_examples
        truthy_num_def parseProperties_def Let_def discount_examples)

text \<open>
  Claim C8 at a price of zero. An advertisement priced \<open>R$ 0\<close> with an old price of
  \<open>R$ 100\<close> has both prices present and the old one greater, yet it gets no discount: the
  guard \<open>oldPrice && price && oldPrice > price\<close> reads a price of 0 as a missing price.
\<close>

theorem parseAd_zero_price_no_discount:
  "parseAd (Some (sample_ad 1 ''Mesa'' (Some ''R$ 0'') (Some ''R$ 100'')))
     = Some ((sample_item 1 (Some 0))\<lparr>title := ''Mesa'', oldPrice := Some 100, discountPercent := None\<rparr>)"
  by (simp add: parseAd_def sample_ad_def sample_item_def js_or_def truthy_def parsePrice_examples
        truthy_num_def parseProperties_def Let_def)

subsection \<open>Pagination\<close>

lemma paginate_stop:
  "\<not> more_pages (limit opts) psize tot st \<Longrightarrow> paginate W q opts ss psize tot st = ([], Inr st)"
  by (subst paginate.simps) simp

lemma addPage_Nil: "addPage [] p st = st\<lparr>currentPage := p\<rparr>"
  by (simp add: addPage_def parseAds_def List.map_filter_simps)

lemma currentPage_addPage: "currentPage (addPage l p st) = p"
  by (simp add: addPage_def Let_def)

lemma currentPage_stateAfter:
  "currentPage first = 1 \<Longrightarrow> 1 \<le> n \<Longrightarrow> currentPage (stateAfter W q opts ss first n) = n"
  by (cases n) (auto simp: currentPage_addPage)

lemma paginate_trace:
  assumes "paginate W q opts ss psize tot st = (reqs, res)"
    and "currentPage first = 1" and "1 \<le> currentPage st"
    and "stateAfter W q opts ss first (currentPage st) = st"
    and "2 \<le> currentPage st \<longrightarrow> pageRecords W q opts ss (currentPage st) \<noteq> []"
  shows "reqs = pageUrls q opts ss (currentPage st) (currentPage st + length reqs)
     \<and> (\<forall>n. currentPage st \<le> n \<and> n < currentPage st + length reqs
            \<longrightarrow> \<not> stops_after W q opts ss psize tot first n)
     \<and> (case res of
           Inr st' \<Rightarrow> currentPage st' = currentPage st + length reqs
                      \<and> stateAfter W q opts ss first (currentPage st') = st'
                      \<and> stops_after W q opts ss psize tot first (currentPage st')
         | Inl e \<Rightarrow> e = TransportError \<and> 0 < length reqs
                    \<and> pages W (buildUrl q (sort_order opts) (currentPage st + length reqs) ss (category opts))
                        = TransportFailure)"
  using assms
proof (induction W q opts ss psize tot st arbitrary: reqs res rule: paginate.induct)
  case (1 W query opts singleState psize totalAvailable st)
  let ?m = "currentPage st"
  let ?u = "buildUrl query (sort_order opts) (?m + 1) singleState (category opts)"
  have here: "stops_after W query opts singleState psize totalAvailable first ?m
               \<longleftrightarrow> \<not> more_pages (limit opts) psize totalAvailable st"
    using "1.prems"(4,5) by (auto simp: stops_after_def more_pages_def)
  have single: "\<forall>n. ?m \<le> n \<and> n < Suc ?m
                 \<longrightarrow> \<not> stops_after W query opts singleState psize totalAvailable first n"
    if "more_pages (limit opts) psize totalAvailable st"
  proof (intro allI impI)
    fix n assume "?m \<le> n \<and> n < Suc ?m"
    then have "n = ?m" by simp
    then show "\<not> stops_after W query opts singleState psize totalAvailable first n"
      using here that by simp
  qed
  show ?case
  proof (cases "more_pages (limit opts) psize totalAvailable st")
    case False
    then have "reqs = []" "res = Inr st"
      using "1.prems"(1) by (simp_all add: paginate_stop)
    then show ?thesis using here False "1.prems"(4) by (auto simp: pageUrls_def)
  next
    case True
    note more = True
    show ?thesis
    proof (cases "pages W ?u")
      case TransportFailure
      then have "reqs = [PageRequest ?u]" "res = Inl TransportError"
        using "1.prems"(1) more by (subst (asm) paginate.simps, simp add: Let_def)+
      then show ?thesis using single[OF more] TransportFailure by (simp add: pageUrls_def)
    next
      case (Document doc)
      show ?thesis
      proof (cases "pageRecords W query opts singleState (?m + 1) = []")
        case True
        then have r: "reqs = [PageRequest ?u]" "res = Inr (st\<lparr>currentPage := ?m + 1\<rparr>)"
          using "1.prems"(1) more Document
          by (subst (asm) paginate.simps,
              simp add: Let_def pageRecords_def extractNextData_def split: option.splits)+
        have sa: "stateAfter W query opts singleState first (?m + 1) = st\<lparr>currentPage := ?m + 1\<rparr>"
          using "1.prems"(3,4) True by (simp add: addPage_Nil)
        have "stops_after W query opts singleState psize totalAvailable first (?m + 1)"
          using True "1.prems"(3) by (simp add: stops_after_def)
        then show ?thesis using r single[OF more] sa by (simp add: pageUrls_def)
      next
        case False
        then obtain pageState pageAds where d: "doc = Some pageState" "ads pageState = Some pageAds"
          "pageAds \<noteq> []" "pageRecords W query opts singleState (?m + 1) = pageAds"
          using Document by (auto simp: pageRecords_def split: option.splits)
        obtain reqs' res' where rec: "paginate W query opts singleState psize totalAvailable
            (addPage pageAds (?m + 1) st) = (reqs', res')"
          by (cases "paginate W query opts singleState psize totalAvailable (addPage pageAds (?m + 1) st)")
        have r: "reqs = PageRequest ?u # reqs'" "res = res'"
          using "1.prems"(1) more Document d rec
          by (subst (asm) paginate.simps, simp add: Let_def extractNextData_def)+
        let ?st = "addPage pageAds (?m + 1) st"
        have cp: "currentPage ?st = ?m + 1" by (simp add: currentPage_addPage)
        have sa: "stateAfter W query opts singleState first (currentPage ?st) = ?st"
          using "1.prems"(3,4) d(4) cp by simp
        have ne: "2 \<le> currentPage ?st \<longrightarrow> pageRecords W query opts singleState (currentPage ?st) \<noteq> []"
          using d cp by simp
        have IH: "reqs' = pageUrls query opts singleState (currentPage ?st) (currentPage ?st + length reqs')
          \<and> (\<forall>n. currentPage ?st \<le> n \<and> n < currentPage ?st + length reqs'
                 \<longrightarrow> \<not> stops_after W query opts singleState psize totalAvailable first n)
          \<and> (case res' of
                Inr st' \<Rightarrow> currentPage st' = currentPage ?st + length reqs'
                           \<and> stateAfter W query opts singleState first (currentPage st') = st'
                           \<and> stops_after W query opts singleState psize totalAvailable first (currentPage st')
              | Inl e \<Rightarrow> e = TransportError \<and> 0 < length reqs'
                         \<and> pages W (buildUrl query (sort_order opts) (currentPage ?st + length reqs')
                               singleState (category opts)) = TransportFailure)"
          using "1.IH"[OF more refl refl Document _ d(2) d(3) rec "1.prems"(2) _ sa ne] d(1) cp
          by (simp add: extractNextData_def)
        have u: "pageUrls query opts singleState ?m (?m + length reqs)
                 = PageRequest ?u # pageUrls query opts singleState (?m + 1) (?m + 1 + length reqs')"
        proof -
          have "[Suc ?m..<Suc (?m + length reqs)]
                = Suc ?m # [Suc (?m + 1)..<Suc (?m + 1 + length reqs')]"
            using r(1) by (simp add: upt_conv_Cons del: upt_Suc)
          then show ?thesis unfolding pageUrls_def by simp
        qed
        have nst: "\<forall>n. ?m \<le> n \<and> n < ?m + length reqs
                 \<longrightarrow> \<not> stops_after W query opts singleState psize totalAvailable first n"
        proof (intro allI impI)
          fix n assume n: "?m \<le> n \<and> n < ?m + length reqs"
          show "\<not> stops_after W query opts singleState psize totalAvailable first n"
          proof (cases "n = ?m")
            case True
            then show ?thesis using here more by simp
          next
            case False
            then have "currentPage ?st \<le> n \<and> n < currentPage ?st + length reqs'"
              using n r cp by simp
            then show ?thesis using IH by blast
          qed
        qed
        show ?thesis
          using IH u nst r cp by (auto split: sum.splits)
      qed
    qed
  qed
qed


lemma parseAd_sample:
  "subj \<noteq> [] \<Longrightarrow> parseAd (Some (sample_ad i subj None None)) = Some ((sample_item i None)\<lparr>title := subj\<rparr>)"
  by (simp add: parseAd_def sample_ad_def sample_item_def js_or_def truthy_def parsePrice_def
        truthy_num_def parseProperties_def Let_def)





subsection \<open>Enrichment\<close>

lemma listing_of_assignDetail: "listing_of (assignDetail it d) = listing_of it"
  by (simp add: listing_of_def assignDetail_def)

lemma enrich_step_listing:
  "map listing_of (fold (\<lambda>(k, r) l. case r of None \<Rightarrow> l | Some d \<Rightarrow> l[k := assignDetail (l ! k) d]) kr l)
     = map listing_of l"
proof (induction kr arbitrary: l)
  case Nil
  then show ?case by simp
next
  case (Cons a kr)
  obtain k r where a: "a = (k, r)" by (cases a)
  show ?case
  proof (cases r)
    case None
    then show ?thesis using Cons a by simp
  next
    case (Some d)
    have "map listing_of (l[k := assignDetail (l ! k) d]) = map listing_of l"
    proof (cases "k < length l")
      case True
      then show ?thesis
        by (simp add: map_update listing_of_assignDetail list_update_same_conv)
    next
      case False
      then show ?thesis by (simp add: list_update_beyond)
    qed
    then show ?thesis using Cons a Some by simp
  qed
qed

lemma enrichBatch_listing:
  "map listing_of (fst (enrichBatch W batch st)) = map listing_of (fst st)"
  by (simp add: enrichBatch_def Let_def enrich_step_listing)

lemma enrichLoop_listing:
  assumes "enrichLoop W conc queue i st = Some st'"
  shows "map listing_of (fst st') = map listing_of (fst st)"
  by (rule enrichLoop.raw_induct
        [where P = "\<lambda>W conc queue i st st'. map listing_of (fst st') = map listing_of (fst st)",
         OF _ assms])
     (auto split: if_splits simp: enrichBatch_listing)

lemma enrichLoop_terminates:
  assumes "0 < conc"
  shows "\<exists>r. enrichLoop W conc queue i st = Some r"
proof (induction "nat (int (length queue) - i)" arbitrary: i st rule: less_induct)
  case less
  show ?case
  proof (cases "i < int (length queue)")
    case True
    have "nat (int (length queue) - (i + conc)) < nat (int (length queue) - i)"
      using True assms by linarith
    from less[OF this] obtain r where
      "enrichLoop W conc queue (i + conc) (enrichBatch W (js_slice queue i (i + conc)) st) = Some r"
      by blast
    then show ?thesis using True by (subst enrichLoop.simps) simp
  next
    case False
    then show ?thesis by (subst enrichLoop.simps) simp
  qed
qed

lemma enrich_terminates: "0 < conc \<Longrightarrow> \<exists>r. enrich W conc l = Some r"
  unfolding enrich_def using enrichLoop_terminates[of conc W] by (cases "l = []") simp_all

lemma enrich_listing: "enrich W conc l = Some r \<Longrightarrow> map listing_of (fst r) = map listing_of l"
  by (auto simp: enrich_def dest: enrichLoop_listing split: if_splits)

lemma enrich_no_links:
  assumes "\<forall>it\<in>set l. permalink it = []"
  shows "enrich W conc l = Some (l, [])"
proof -
  have "filter (\<lambda>k. permalink (l ! k) \<noteq> []) [0..<length l] = []"
    using assms by (simp add: filter_empty_conv)
  then show ?thesis
    by (simp add: enrich_def) (subst enrichLoop.simps, simp)
qed

lemma searchSingle_eval:
  assumes "pages W (buildUrl query (sort_order opts) 1 ss (category opts)) = Document (Some fs)"
    and "ads fs = Some l"
    and "paginate W query opts ss (pageSizeOf fs) (totalOfAds fs) (firstPageState l) = (preqs, Inr st)"
    and "enrich W (concurrency opts)
           (sortAndCut (sort_order opts) (limit opts) (strictFilter (strict opts) query (p_items st)))
         = Some (en, dreqs)"
  shows "searchSingle W query opts ss =
     Some (PageRequest (buildUrl query (sort_order opts) 1 ss (category opts)) # preqs @ dreqs,
       Inr \<lparr>items = en,
            pg_total = (case totalOfAds fs of None \<Rightarrow> length en
                        | Some n \<Rightarrow> if n = 0 then length en else n),
            pg_pageSize = pageSizeOf fs, pg_limit = limit opts, pg_maxPages = MAX_PAGES,
            pg_resultsLimit = MAX_PAGES * pageSizeOf fs,
            capped = isCapped (limit opts) (pageSizeOf fs) (totalOfAds fs) st\<rparr>)"
  using assms by (simp add: searchSingle_def Let_def extractNextData_def)

lemma search_no_region:
  "\<not> truthy (category opts) \<Longrightarrow> state opts = None \<Longrightarrow> search W query opts = searchSingle W query opts None"
  by (auto simp: search_def parseStates_def truthy_def)

lemma parseAds_two:
  "parseAds [Some (sample_ad i ''Mesa'' None None), Some (sample_ad j ''Cadeira'' None None)]
     = [(sample_item i None)\<lparr>title := ''Mesa''\<rparr>, (sample_item j None)\<lparr>title := ''Cadeira''\<rparr>]"
  by (simp add: parseAds_def List.map_filter_simps parseAd_sample)

subsection \<open>The size of a result\<close>

lemma enrich_length: "enrich W conc l = Some r \<Longrightarrow> length (fst r) = length l"
  using enrich_listing[of W conc l r] by (metis length_map)

lemma length_sortAndCut: "0 \<le> lmt \<Longrightarrow> int (length (sortAndCut srt lmt l)) \<le> lmt"
  by (simp add: sortAndCut_def js_slice_0)

lemma searchSingle_InrE:
  assumes "searchSingle W query opts ss = Some (reqs, Inr r)"
  obtains firstState firstAds preqs st dreqs where
    "pages W (buildUrl query (sort_order opts) 1 ss (category opts)) = Document (Some firstState)"
    "ads firstState = Some firstAds"
    "paginate W query opts ss (pageSizeOf firstState) (totalOfAds firstState)
       (firstPageState firstAds) = (preqs, Inr st)"
    "enrich W (concurrency opts)
       (sortAndCut (sort_order opts) (limit opts) (strictFilter (strict opts) query (p_items st)))
     = Some (items r, dreqs)"
    "capped r = isCapped (limit opts) (pageSizeOf firstState) (totalOfAds firstState) st"
    "reqs = PageRequest (buildUrl query (sort_order opts) 1 ss (category opts)) # preqs @ dreqs"
proof -
  let ?u = "buildUrl query (sort_order opts) 1 ss (category opts)"
  from assms obtain firstState where p: "pages W ?u = Document (Some firstState)"
    by (auto simp: searchSingle_def Let_def extractNextData_def split: response.splits option.splits)
  from assms p obtain firstAds where a: "ads firstState = Some firstAds"
    by (auto simp: searchSingle_def Let_def extractNextData_def split: option.splits)
  obtain preqs pres where pg: "paginate W query opts ss (pageSizeOf firstState) (totalOfAds firstState)
       (firstPageState firstAds) = (preqs, pres)"
    by (cases "paginate W query opts ss (pageSizeOf firstState) (totalOfAds firstState)
       (firstPageState firstAds)")
  from assms p a pg obtain st where st: "pres = Inr st"
    by (cases pres) (auto simp: searchSingle_def Let_def extractNextData_def)
  let ?shaped = "sortAndCut (sort_order opts) (limit opts) (strictFilter (strict opts) query (p_items st))"
  from assms p a pg st obtain enriched dreqs where
    e: "enrich W (concurrency opts) ?shaped = Some (enriched, dreqs)"
    by (cases "enrich W (concurrency opts) ?shaped")
       (auto simp: searchSingle_def Let_def extractNextData_def)
  from assms p a pg st e have "items r = enriched"
    "capped r = isCapped (limit opts) (pageSizeOf firstState) (totalOfAds firstState) st"
    "reqs = PageRequest ?u # preqs @ dreqs"
    by (auto simp: searchSingle_def Let_def extractNextData_def)
  with p a pg st e that show thesis by blast
qed

lemma searchSingle_le_limit:
  assumes "searchSingle W query opts ss = Some (reqs, Inr r)" and "0 \<le> limit opts"
  shows "int (length (items r)) \<le> limit opts"
  using assms(1)
proof (rule searchSingle_InrE)
  fix st dreqs
  assume "enrich W (concurrency opts)
       (sortAndCut (sort_order opts) (limit opts) (strictFilter (strict opts) query (p_items st)))
     = Some (items r, dreqs)"
  from enrich_length[OF this] show ?thesis using length_sortAndCut[OF assms(2)] by simp
qed

lemma searchMulti_items:
  assumes "searchMulti W query opts stateList = Some (reqs, Inr r)"
  shows "\<exists>l. items r = sortAndCut (sort_order opts) (limit opts) l
           \<and> capped r = (limit opts \<le> int (length (items r)))"
  using assms by (auto simp: searchMulti_def Let_def split: option.splits)


lemma searchMulti_le_limit:
  assumes "searchMulti W query opts stateList = Some (reqs, Inr r)" and "0 \<le> limit opts"
  shows "int (length (items r)) \<le> limit opts"
  using searchMulti_items[OF assms(1)] length_sortAndCut[OF assms(2)] by auto

lemma search_cases:
  assumes "search W query opts = Some (reqs, Inr r)"
  shows "(1 < length (parseStates (state opts))
            \<and> searchMulti W query opts (parseStates (state opts)) = Some (reqs, Inr r))
         \<or> (length (parseStates (state opts)) \<le> 1
            \<and> searchSingle W query opts
                 (case parseStates (state opts) of [] \<Rightarrow> None | s # _ \<Rightarrow> Some s) = Some (reqs, Inr r))"
  using assms by (auto simp: search_def Let_def split: if_splits option.splits)

text \<open>
  Claim C1, for a limit that is not negative. A search that returns a result, for one
  region or for several, returns at most \<open>limit\<close> items: both bodies end with
  \<open>slice(0, limit)\<close>, and enrichment keeps the length.
\<close>

theorem search_items_le_limit:
  assumes "search W query opts = Some (reqs, Inr r)" and "0 \<le> limit opts"
  shows "int (length (items r)) \<le> limit opts"
  using search_cases[OF assms(1)] searchSingle_le_limit[OF _ assms(2)]
    searchMulti_le_limit[OF _ assms(2)]
  by blast

lemma search_one_page:
  assumes "\<not> truthy (category opts)" and "state opts = None"
    and "pages W (buildUrl query (sort_order opts) 1 None (category opts)) = Document (Some fs)"
    and "ads fs = Some l"
    and "\<not> more_pages (limit opts) (pageSizeOf fs) (totalOfAds fs) (firstPageState l)"
    and "enrich W (concurrency opts)
           (sortAndCut (sort_order opts) (limit opts) (strictFilter (strict opts) query (parseAds l)))
         = Some (en, dreqs)"
  shows "search W query opts =
     Some (PageRequest (buildUrl query (sort_order opts) 1 None (category opts)) # dreqs,
       Inr \<lparr>items = en,
            pg_total = (case totalOfAds fs of None \<Rightarrow> length en
                        | Some n \<Rightarrow> if n = 0 then length en else n),
            pg_pageSize = pageSizeOf fs, pg_limit = limit opts, pg_maxPages = MAX_PAGES,
            pg_resultsLimit = MAX_PAGES * pageSizeOf fs,
            capped = isCapped (limit opts) (pageSizeOf fs) (totalOfAds fs) (firstPageState l)\<rparr>)"
proof -
  have g: "paginate W query opts None (pageSizeOf fs) (totalOfAds fs) (firstPageState l)
           = ([], Inr (firstPageState l))"
    using assms(5) by (rule paginate_stop)
  have e: "enrich W (concurrency opts)
           (sortAndCut (sort_order opts) (limit opts)
              (strictFilter (strict opts) query (p_items (firstPageState l))))
         = Some (en, dreqs)"
    using assms(6) by (simp add: firstPageState_def)
  show ?thesis
    unfolding search_no_region[OF assms(1,2)]
    using searchSingle_eval[OF assms(3,4) g e] by simp
qed

lemma two_ads_search:
  "search two_ads_web ''mesa'' (default_options\<lparr>limit := lmt\<rparr>) =
     Some ([PageRequest (buildUrl ''mesa'' None 1 None None)],
       Inr \<lparr>items = js_slice [(sample_item 1 None)\<lparr>title := ''Mesa''\<rparr>,
                              (sample_item 2 None)\<lparr>title := ''Cadeira''\<rparr>] 0 lmt,
            pg_total = 2, pg_pageSize = 50, pg_limit = lmt, pg_maxPages = 20,
            pg_resultsLimit = 1000, capped = (lmt \<le> 2)\<rparr>)"
proof -
  let ?opts = "default_options\<lparr>limit := lmt\<rparr>"
  let ?l = "[Some (sample_ad 1 ''Mesa'' None None), Some (sample_ad 2 ''Cadeira'' None None)]"
  let ?fs = "\<lparr>ads = Some ?l, totalOfAds = Some 2, pageSize = Some 50\<rparr>"
  let ?en = "js_slice [(sample_item 1 None)\<lparr>title := ''Mesa''\<rparr>,
                       (sample_item 2 None)\<lparr>title := ''Cadeira''\<rparr>] 0 lmt"
  have "search two_ads_web ''mesa'' ?opts =
     Some (PageRequest (buildUrl ''mesa'' (sort_order ?opts) 1 None (category ?opts)) # [],
       Inr \<lparr>items = ?en,
            pg_total = (case totalOfAds ?fs of None \<Rightarrow> length ?en
                        | Some n \<Rightarrow> if n = 0 then length ?en else n),
            pg_pageSize = pageSizeOf ?fs, pg_limit = limit ?opts, pg_maxPages = MAX_PAGES,
            pg_resultsLimit = MAX_PAGES * pageSizeOf ?fs,
            capped = isCapped (limit ?opts) (pageSizeOf ?fs) (totalOfAds ?fs) (firstPageState ?l)\<rparr>)"
  proof (rule search_one_page)
    show "\<not> truthy (category ?opts)" by (simp add: default_options_def truthy_def)
    show "state ?opts = None" by (simp add: default_options_def)
    show "pages two_ads_web (buildUrl ''mesa'' (sort_order ?opts) 1 None (category ?opts))
          = Document (Some ?fs)"
      by (simp add: two_ads_web_def sample_page_def)
    show "ads ?fs = Some ?l" by simp
    show "\<not> more_pages (limit ?opts) (pageSizeOf ?fs) (totalOfAds ?fs) (firstPageState ?l)"
      by (simp add: more_pages_def less_total_def pageSizeOf_def firstPageState_def)
    have "\<forall>it\<in>set ?en. permalink it = []"
      by (auto simp: js_slice_def Let_def sample_item_def dest!: in_set_takeD in_set_dropD)
    then show "enrich two_ads_web (concurrency ?opts)
           (sortAndCut (sort_order ?opts) (limit ?opts)
              (strictFilter (strict ?opts) ''mesa'' (parseAds ?l)))
         = Some (?en, [])"
      by (simp add: default_options_def strictFilter_def sortAndCut_def sortItems_def
          parseAds_two enrich_no_links)
  qed
  then show ?thesis
    by (simp add: default_options_def pageSizeOf_def isCapped_def firstPageState_def parseAds_two
          MAX_PAGES_def less_total_def)
qed

theorem search_items_le_limit_witness:
  "search two_ads_web ''mesa'' (default_options\<lparr>limit := 1\<rparr>) =
     Some ([PageRequest (buildUrl ''mesa'' None 1 None None)],
       Inr \<lparr>items = [(sample_item 1 None)\<lparr>title := ''Mesa''\<rparr>], pg_total = 2, pg_pageSize = 50,
            pg_limit = 1, pg_maxPages = 20, pg_resultsLimit = 1000, capped = True\<rparr>)
   \<and> int (length [(sample_item 1 None)\<lparr>title := ''Mesa''\<rparr>]) \<le> 1"
proof -
  have e: "search two_ads_web ''mesa'' (default_options\<lparr>limit := 1\<rparr>) =
     Some ([PageRequest (buildUrl ''mesa'' None 1 None None)],
       Inr \<lparr>items = [(sample_item 1 None)\<lparr>title := ''Mesa''\<rparr>], pg_total = 2, pg_pageSize = 50,
            pg_limit = 1, pg_maxPages = 20, pg_resultsLimit = 1000, capped = True\<rparr>)"
    by (simp add: two_ads_search js_slice_def slice_index_def)
  have "0 \<le> limit (default_options\<lparr>limit := 1\<rparr>)" by simp
  from search_items_le_limit[OF e this] e show ?thesis by simp
qed

text \<open>
  The library itself accepts a negative limit, for which \<open>slice(0, limit)\<close> drops items from
  the end: with a limit of \<open>-1\<close> a page of two records gives one item, more than the limit.
\<close>

theorem negative_limit_exceeded:
  "search two_ads_web ''mesa'' (default_options\<lparr>limit := - 1\<rparr>) =
     Some ([PageRequest (buildUrl ''mesa'' None 1 None None)],
       Inr \<lparr>items = [(sample_item 1 None)\<lparr>title := ''Mesa''\<rparr>], pg_total = 2, pg_pageSize = 50,
            pg_limit = - 1, pg_maxPages = 20, pg_resultsLimit = 1000, capped = True\<rparr>)
   \<and> \<not> int (length [(sample_item 1 None)\<lparr>title := ''Mesa''\<rparr>]) \<le> - 1"
  by (simp add: two_ads_search js_slice_def slice_index_def)

subsection \<open>The merge of several regions\<close>











subsection \<open>Validation\<close>








text \<open>
  The command line reads \<open>1.9\<close> as the limit 1.
\<close>

lemma cli_fractional_limit:
  "olx_search two_ads_web (sample_args (Some ''1.9'')) =
     Some ([PageRequest (buildUrl ''mesa'' None 1 None None)],
       Inr (SearchOutput
         \<lparr>items = [(sample_item 1 None)\<lparr>title := ''Mesa''\<rparr>], pg_total = 2, pg_pageSize = 50,
          pg_limit = 1, pg_maxPages = 20, pg_resultsLimit = 1000, capped = True\<rparr>))"
  by code_simp

subsection \<open>Identities\<close>

lemma parseAds_twins:
  "parseAds [Some (sample_ad 7 ''Mesa'' None None), Some (sample_ad 7 ''Mesa'' None None)]
     = [(sample_item 7 None)\<lparr>title := ''Mesa''\<rparr>, (sample_item 7 None)\<lparr>title := ''Mesa''\<rparr>]"
  by (simp add: parseAds_def List.map_filter_simps parseAd_sample)

text \<open>
  Claim C2 on a first page that lists an advertisement twice. The items of the first page
  are taken as they are and only recorded as seen; the check against the seen identities
  is made for the later pages and in the merge of several regions. Both copies are
  returned by a search of one region, and one copy by a search of two regions.
\<close>

theorem first_page_duplicates_kept:
  "search twin_ads_web ''mesa'' default_options =
     Some ([PageRequest (buildUrl ''mesa'' None 1 None None)],
       Inr \<lparr>items = [(sample_item 7 None)\<lparr>title := ''Mesa''\<rparr>,
                     (sample_item 7 None)\<lparr>title := ''Mesa''\<rparr>],
            pg_total = 2, pg_pageSize = 50, pg_limit = 20, pg_maxPages = 20,
            pg_resultsLimit = 1000, capped = False\<rparr>)"
proof -
  let ?opts = "default_options"
  let ?l = "[Some (sample_ad 7 ''Mesa'' None None), Some (sample_ad 7 ''Mesa'' None None)]"
  let ?fs = "\<lparr>ads = Some ?l, totalOfAds = Some 2, pageSize = Some 50\<rparr>"
  let ?en = "[(sample_item 7 None)\<lparr>title := ''Mesa''\<rparr>, (sample_item 7 None)\<lparr>title := ''Mesa''\<rparr>]"
  have "search twin_ads_web ''mesa'' ?opts =
     Some (PageRequest (buildUrl ''mesa'' (sort_order ?opts) 1 None (category ?opts)) # [],
       Inr \<lparr>items = ?en,
            pg_total = (case totalOfAds ?fs of None \<Rightarrow> length ?en
                        | Some n \<Rightarrow> if n = 0 then length ?en else n),
            pg_pageSize = pageSizeOf ?fs, pg_limit = limit ?opts, pg_maxPages = MAX_PAGES,
            pg_resultsLimit = MAX_PAGES * pageSizeOf ?fs,
            capped = isCapped (limit ?opts) (pageSizeOf ?fs) (totalOfAds ?fs) (firstPageState ?l)\<rparr>)"
  proof (rule search_one_page)
    show "\<not> truthy (category ?opts)" by (simp add: default_options_def truthy_def)
    show "state ?opts = None" by (simp add: default_options_def)
    show "pages twin_ads_web (buildUrl ''mesa'' (sort_order ?opts) 1 None (category ?opts))
          = Document (Some ?fs)"
      by (simp add: twin_ads_web_def sample_page_def)
    show "ads ?fs = Some ?l" by simp
    show "\<not> more_pages (limit ?opts) (pageSizeOf ?fs) (totalOfAds ?fs) (firstPageState ?l)"
      by (simp add: more_pages_def less_total_def pageSizeOf_def firstPageState_def)
    have "\<forall>it\<in>set ?en. permalink it = []" by (simp add: sample_item_def)
    then show "enrich twin_ads_web (concurrency ?opts)
           (sortAndCut (sort_order ?opts) (limit ?opts)
              (strictFilter (strict ?opts) ''mesa'' (parseAds ?l)))
         = Some (?en, [])"
      by (simp add: default_options_def strictFilter_def sortAndCut_def sortItems_def
          parseAds_twins enrich_no_links js_slice_def slice_index_def DEFAULT_LIMIT_def)
  qed
  then show ?thesis
    by (simp add: default_options_def pageSizeOf_def isCapped_def firstPageState_def parseAds_twins
          MAX_PAGES_def less_total_def DEFAULT_LIMIT_def)
qed

lemma twins_merged_once:
  "map_option (map item_id \<circ> items)
     (returned (search twin_ads_web ''mesa'' (default_options\<lparr>state := Some ''sp,rj''\<rparr>)))
   = Some [Some 7]"
  by code_simp

subsection \<open>Strict matching comes before enrichment\<close>

lemma set_js_slice: "set (js_slice xs a b) \<subseteq> set xs"
  by (auto simp: js_slice_def Let_def dest!: in_set_takeD in_set_dropD)

lemma set_sortItems: "set (sortItems srt l) = set l"
  by (rule mset_eq_setD) (simp add: sortItems_def mset_js_sort)

lemma set_sortAndCut: "set (sortAndCut srt lmt l) \<subseteq> set l"
  using set_js_slice[of "sortItems srt l" 0 lmt] by (simp add: sortAndCut_def set_sortItems)

lemma strictFilter_matches:
  "x \<in> set (strictFilter True query l) \<Longrightarrow> matchesTokens x (getQueryTokens query)"
  by (cases "getQueryTokens query = []") (simp_all add: strictFilter_def Let_def matchesTokens_def)

lemma set_strictFilter: "set (strictFilter b query l) \<subseteq> set l"
  by (auto simp: strictFilter_def Let_def)

lemma parseAd_listing: "parseAd a = Some it \<Longrightarrow> listing_of it = it"
  by (auto simp: parseAd_def listing_of_def Let_def split: option.splits if_splits)

lemma parseAds_listing: "it \<in> set (parseAds l) \<Longrightarrow> listing_of it = it"
  by (auto simp: parseAds_def map_filter_def dest: parseAd_listing)

lemma set_pushUnique: "set (snd (pushUnique x st)) \<subseteq> insert x (set (snd st))"
  by (auto simp: pushUnique_def split: option.splits)

lemma set_fold_pushUnique: "set (snd (fold pushUnique xs st)) \<subseteq> set (snd st) \<union> set xs"
proof (induction xs arbitrary: st)
  case Nil
  then show ?case by simp
next
  case (Cons x xs)
  show ?case using Cons[of "pushUnique x st"] set_pushUnique[of x st] by auto
qed

lemma addPage_items: "set (p_items (addPage l p st)) \<subseteq> set (p_items st) \<union> set (parseAds l)"
  using set_fold_pushUnique[of "parseAds l" "(seenIds st, p_items st)"]
  by (simp add: addPage_def Let_def)

lemma stateAfter_listing:
  assumes "\<forall>it\<in>set (p_items first). listing_of it = it"
  shows "\<forall>it\<in>set (p_items (stateAfter W query opts ss first n)). listing_of it = it"
proof (induction n)
  case 0
  then show ?case using assms by simp
next
  case (Suc n)
  then show ?case using assms addPage_items parseAds_listing
    by (cases "n = 0") (simp, fastforce)
qed

lemma paginate_listing:
  assumes "paginate W query opts ss psize tot (firstPageState l) = (reqs, Inr st)"
  shows "\<forall>it\<in>set (p_items st). listing_of it = it"
proof -
  have c: "currentPage (firstPageState l) = 1" by (simp add: firstPageState_def)
  have p3: "1 \<le> currentPage (firstPageState l)" by (simp add: c)
  have p4: "stateAfter W query opts ss (firstPageState l) (currentPage (firstPageState l))
            = firstPageState l"
    by (simp add: c)
  have p5: "2 \<le> currentPage (firstPageState l)
            \<longrightarrow> pageRecords W query opts ss (currentPage (firstPageState l)) \<noteq> []"
    by (simp add: c)
  have "stateAfter W query opts ss (firstPageState l) (currentPage st) = st"
    using paginate_trace[OF assms c p3 p4 p5, THEN conjunct2, THEN conjunct2]
    unfolding sum.case by blast
  moreover have "\<forall>it\<in>set (p_items (firstPageState l)). listing_of it = it"
    by (simp add: firstPageState_def parseAds_listing)
  ultimately show ?thesis using stateAfter_listing by metis
qed

lemma matchesTokens_corpus:
  "matchesTokens it tokens \<longleftrightarrow>
     (\<forall>t\<in>set tokens. sublist t (corpus (title it) (description it)
        (case properties it of None \<Rightarrow> [] | Some ps \<Rightarrow> map prop_value ps)))"
  using matchesTokens_iff[of it tokens] by (simp add: item_corpus_def)

text \<open>
  Claim C10. In a strict search of at most one region every returned item has every token
  of the query in the corpus of its title and listing properties alone: items are filtered
  while their description is still empty, so an item whose tokens occur only in the
  description of its detail page is never returned.
\<close>

theorem strict_filter_before_enrichment:
  assumes "search W query opts = Some (reqs, Inr r)"
    and "length (parseStates (state opts)) \<le> 1" and "strict opts"
  shows "\<forall>it\<in>set (items r). \<forall>t\<in>set (getQueryTokens query).
           sublist t (corpus (title it) None
             (case properties it of None \<Rightarrow> [] | Some ps \<Rightarrow> map prop_value ps))"
proof
  fix it assume it: "it \<in> set (items r)"
  from search_cases[OF assms(1)] assms(2)
  have "searchSingle W query opts
          (case parseStates (state opts) of [] \<Rightarrow> None | s # _ \<Rightarrow> Some s) = Some (reqs, Inr r)"
    by auto
  then show "\<forall>t\<in>set (getQueryTokens query).
           sublist t (corpus (title it) None
             (case properties it of None \<Rightarrow> [] | Some ps \<Rightarrow> map prop_value ps))"
  proof (rule searchSingle_InrE)
    fix firstState firstAds preqs dreqs and st :: pstate
    let ?shaped = "sortAndCut (sort_order opts) (limit opts)
                     (strictFilter (strict opts) query (p_items st))"
    assume pg: "paginate W query opts (case parseStates (state opts) of [] \<Rightarrow> None | s # _ \<Rightarrow> Some s)
        (pageSizeOf firstState) (totalOfAds firstState) (firstPageState firstAds) = (preqs, Inr st)"
      and en: "enrich W (concurrency opts) ?shaped = Some (items r, dreqs)"
    from enrich_listing[OF en] have "map listing_of (items r) = map listing_of ?shaped" by simp
    then have "listing_of it \<in> listing_of ` set ?shaped"
      using it by (metis image_eqI set_map)
    then obtain x where x: "x \<in> set ?shaped" "listing_of it = listing_of x" by blast
    have xs: "x \<in> set (strictFilter True query (p_items st))"
      using x(1) set_sortAndCut assms(3) by fastforce
    then have "x \<in> set (p_items st)" using set_strictFilter by blast
    then have "listing_of x = x" using paginate_listing[OF pg] by blast
    then have "matchesTokens (listing_of it) (getQueryTokens query)"
      using strictFilter_matches[OF xs] x(2) by simp
    then show ?thesis
      by (simp add: matchesTokens_corpus listing_of_def)
  qed
qed

theorem strict_filter_before_enrichment_witness:
  "search described_web ''hello'' (default_options\<lparr>strict := True\<rparr>) =
     Some ([PageRequest (buildUrl ''hello'' None 1 None None), DetailRequest ''/a''],
       Inr \<lparr>items = [linked_item 1 ''Mesa hello'' ''/a''],
            pg_total = 2, pg_pageSize = 50, pg_limit = 20, pg_maxPages = 20,
            pg_resultsLimit = 1000, capped = False\<rparr>)
   \<and> sublist ''hello'' (corpus ''Mesa hello'' None [])
   \<and> search described_web ''hello'' default_options =
     Some ([PageRequest (buildUrl ''hello'' None 1 None None), DetailRequest ''/a'',
            DetailRequest ''/b''],
       Inr \<lparr>items = [linked_item 1 ''Mesa hello'' ''/a'',
                      (linked_item 2 ''Cadeira'' ''/b'')\<lparr>description := Some ''hello''\<rparr>],
            pg_total = 2, pg_pageSize = 50, pg_limit = 20, pg_maxPages = 20,
            pg_resultsLimit = 1000, capped = False\<rparr>)
   \<and> matchesQuery ((linked_item 2 ''Cadeira'' ''/b'')\<lparr>description := Some ''hello''\<rparr>) ''hello''"
proof -
  have e: "search described_web ''hello'' (default_options\<lparr>strict := True\<rparr>) =
     Some ([PageRequest (buildUrl ''hello'' None 1 None None), DetailRequest ''/a''],
       Inr \<lparr>items = [linked_item 1 ''Mesa hello'' ''/a''],
            pg_total = 2, pg_pageSize = 50, pg_limit = 20, pg_maxPages = 20,
            pg_resultsLimit = 1000, capped = False\<rparr>)"
    by code_simp
  have one: "length (parseStates (state (default_options\<lparr>strict := True\<rparr>))) \<le> 1"
    by (simp add: default_options_def parseStates_def truthy_def)
  have t: "getQueryTokens ''hello'' = [''hello'']" by code_simp
  from strict_filter_before_enrichment[OF e one]
  have "sublist ''hello'' (corpus ''Mesa hello'' None [])"
    by (simp add: t linked_item_def sample_item_def)
  moreover have "search described_web ''hello'' default_options =
     Some ([PageRequest (buildUrl ''hello'' None 1 None None), DetailRequest ''/a'',
            DetailRequest ''/b''],
       Inr \<lparr>items = [linked_item 1 ''Mesa hello'' ''/a'',
                      (linked_item 2 ''Cadeira'' ''/b'')\<lparr>description := Some ''hello''\<rparr>],
            pg_total = 2, pg_pageSize = 50, pg_limit = 20, pg_maxPages = 20,
            pg_resultsLimit = 1000, capped = False\<rparr>)"
    by code_simp
  moreover have
    "matchesQuery ((linked_item 2 ''Cadeira'' ''/b'')\<lparr>description := Some ''hello''\<rparr>) ''hello''"
    by code_simp
  ultimately show ?thesis using e by simp
qed

subsection \<open>The capped flag\<close>

text \<open>
  For one region the flag says that the items gathered reached the limit, or that the last
  page fetched was page 20 and the total reported exceeds what those pages can hold.
\<close>

lemma single_region_capped:
  assumes "searchSingle W query opts ss = Some (reqs, Inr r)"
  shows "\<exists>firstState firstAds preqs st.
     pages W (buildUrl query (sort_order opts) 1 ss (category opts)) = Document (Some firstState)
     \<and> ads firstState = Some firstAds
     \<and> paginate W query opts ss (pageSizeOf firstState) (totalOfAds firstState)
          (firstPageState firstAds) = (preqs, Inr st)
     \<and> currentPage st = 1 + length preqs
     \<and> (capped r \<longleftrightarrow>
           limit opts \<le> int (length (p_items st))
           \<or> (MAX_PAGES \<le> 1 + length preqs
               \<and> less_total ((1 + length preqs) * pageSizeOf firstState) (totalOfAds firstState)))"
  using assms
proof (rule searchSingle_InrE)
  fix firstState firstAds preqs dreqs and st :: pstate
  assume p: "pages W (buildUrl query (sort_order opts) 1 ss (category opts)) = Document (Some firstState)"
    and a: "ads firstState = Some firstAds"
    and pg: "paginate W query opts ss (pageSizeOf firstState) (totalOfAds firstState)
          (firstPageState firstAds) = (preqs, Inr st)"
    and c: "capped r = isCapped (limit opts) (pageSizeOf firstState) (totalOfAds firstState) st"
  have c1: "currentPage (firstPageState firstAds) = 1" by (simp add: firstPageState_def)
  have p3: "1 \<le> currentPage (firstPageState firstAds)" by (simp add: c1)
  have p4: "stateAfter W query opts ss (firstPageState firstAds) (currentPage (firstPageState firstAds))
            = firstPageState firstAds"
    by (simp add: c1)
  have p5: "2 \<le> currentPage (firstPageState firstAds)
            \<longrightarrow> pageRecords W query opts ss (currentPage (firstPageState firstAds)) \<noteq> []"
    by (simp add: c1)
  have k: "currentPage st = 1 + length preqs"
    using paginate_trace[OF pg c1 p3 p4 p5, THEN conjunct2, THEN conjunct2] c1
    unfolding sum.case by simp
  show ?thesis
    using p a pg k c by (auto simp: isCapped_def)
qed

text \<open>
  Claim C3 on two regions whose page budget runs out. Every page holds one record and
  reports 1000; with a limit of 100 each region stops after its 20 pages with 20 items,
  and its own result says \<open>capped\<close>. The merged result holds 40 items of the 2000 reported
  and says it is not capped: the flag of several regions is \<open>merged.length >= limit\<close> alone.
\<close>

theorem multi_region_budget_not_capped:
  "map_option capped (returned (search endless_web ''mesa''
       (default_options\<lparr>limit := 100, state := Some ''sp,rj''\<rparr>))) = Some False
   \<and> map_option (length \<circ> items) (returned (search endless_web ''mesa''
       (default_options\<lparr>limit := 100, state := Some ''sp,rj''\<rparr>))) = Some 40
   \<and> map_option pg_total (returned (search endless_web ''mesa''
       (default_options\<lparr>limit := 100, state := Some ''sp,rj''\<rparr>))) = Some 2000
   \<and> map_option capped (returned (search endless_web ''mesa''
       (default_options\<lparr>limit := 100, state := Some ''sp''\<rparr>))) = Some True
   \<and> map_option capped (returned (search endless_web ''mesa''
       (default_options\<lparr>limit := 100, state := Some ''rj''\<rparr>))) = Some True"
  by code_simp

end
